theory Spec2Isabelle
  imports Main "HOL-Library.Sublist"
begin

section \<open>JavaScript values\<close>

text \<open>
  The legacy definition is parsed JSON, so a value is one of the JSON shapes or
  \<open>undefined\<close> (what reading an absent property gives). A string is the list of its
  code units, each below U+0100 (the characters of Latin-1); a number is a safe
  integer, of magnitude at most \<open>2^53 - 1\<close>, the range in which a double holds every
  integer and prints each of its digits (the converter never does arithmetic: it only
  asks whether a number is truthy, whether it is a valid length, and what its decimal
  text is); an object is the list of its own properties in the order they were inserted,
  with distinct keys.
\<close>

datatype jsval =
    JUndefined
  | JNull
  | JBool bool
  | JNum int
  | JStr string
  | JArr "jsval list"
  | JObj "(string \<times> jsval) list"

datatype error =
    TypeError
  | ReferenceError
  | SyntaxError
  | IOError string

text \<open>\<open>Boolean(v)\<close>, and the test of \<open>&&\<close>, \<open>||\<close> and \<open>if\<close>.\<close>

fun truthy :: "jsval \<Rightarrow> bool" where
  "truthy JUndefined = False"
| "truthy JNull = False"
| "truthy (JBool b) = b"
| "truthy (JNum n) = (n \<noteq> 0)"
| "truthy (JStr s) = (s \<noteq> [])"
| "truthy (JArr xs) = True"
| "truthy (JObj ps) = True"

text \<open>\<open>_.isString\<close>.\<close>

fun isString :: "jsval \<Rightarrow> bool" where
  "isString (JStr s) = True"
| "isString v = False"

text \<open>
  \<open>v.name\<close> for the property names the converter reads (\<open>type\<close>, \<open>label\<close>,
  \<open>help_text\<close>, \<open>required\<close>, \<open>placeholder\<close>, \<open>key\<close>, \<open>fields\<close>,
  \<open>sample_result_fields\<close>, \<open>general\<close>, \<open>title\<close>, \<open>description\<close>, \<open>triggers\<close>,
  \<open>searches\<close>, \<open>actions\<close>): none of them is inherited from a built-in prototype, so
  the read finds an own property of an object or gives \<open>undefined\<close>. Reading a property of
  \<open>undefined\<close> or \<open>null\<close> throws.
\<close>

definition own :: "(string \<times> jsval) list \<Rightarrow> string \<Rightarrow> jsval" where
  "own ps name = (case map_of ps name of Some v \<Rightarrow> v | None \<Rightarrow> JUndefined)"

fun getProp :: "jsval \<Rightarrow> string \<Rightarrow> error + jsval" where
  "getProp JUndefined name = Inl TypeError"
| "getProp JNull name = Inl TypeError"
| "getProp (JObj ps) name = Inr (own ps name)"
| "getProp v name = Inr JUndefined"

text \<open>Sequencing of computations that may throw.\<close>

definition bind :: "error + 'a \<Rightarrow> ('a \<Rightarrow> error + 'b) \<Rightarrow> error + 'b" where
  "bind m f = (case m of Inl e \<Rightarrow> Inl e | Inr x \<Rightarrow> f x)"

text \<open>
  The results of a left-to-right sequence of computations: the first one that throws
  ends the sequence.
\<close>

fun collect :: "(error + 'a) list \<Rightarrow> error + 'a list" where
  "collect [] = Inr []"
| "collect (m # ms) = bind m (\<lambda>y. bind (collect ms) (\<lambda>ys. Inr (y # ys)))"

text \<open>\<open>Array.prototype.join\<close> on an array of strings.\<close>

fun join :: "string \<Rightarrow> string list \<Rightarrow> string" where
  "join sep [] = []"
| "join sep [x] = x"
| "join sep (x # y # ys) = x @ sep @ join sep (y # ys)"

text \<open>The decimal text of a safe integer. (Beyond the safe integers a double rounds, and
  its text ends in zeros or, from \<open>10^21\<close> on, is in exponent form: these are not
  values of the model.)\<close>

fun digits :: "nat \<Rightarrow> string" where
  "digits n = (if n < 10 then [char_of (48 + n)] else digits (n div 10) @ [char_of (48 + n mod 10)])"

definition numberToString :: "int \<Rightarrow> string" where
  "numberToString n = (if n < 0 then CHR ''-'' # digits (nat (- n)) else digits (nat n))"

text \<open>
  \<open>ToString\<close>, which a template literal \<open>`${v}`\<close> applies to \<open>v\<close>. An array is its
  elements joined by commas, \<open>undefined\<close> and \<open>null\<close> elements giving the empty text. An
  object is \<open>[object Object]\<close> through the inherited \<open>toString\<close>; an own property named
  \<open>toString\<close> hides that method, is data and so not callable, and the conversion
  throws.
\<close>

fun toString :: "jsval \<Rightarrow> error + string" where
  "toString JUndefined = Inr ''undefined''"
| "toString JNull = Inr ''null''"
| "toString (JBool b) = Inr (if b then ''true'' else ''false'')"
| "toString (JNum n) = Inr (numberToString n)"
| "toString (JStr s) = Inr s"
| "toString (JArr xs) =
     bind (collect (map (\<lambda>x. if x = JUndefined \<or> x = JNull then Inr [] else toString x) xs))
       (\<lambda>ss. Inr (join '','' ss))"
| "toString (JObj ps) =
     (if ''toString'' \<in> fst ` set ps then Inl TypeError else Inr ''[object Object]'')"

text \<open>The values that \<open>toString\<close> converts: no object with an own \<open>toString\<close>
  property, at any depth of arrays.\<close>

fun textual :: "jsval \<Rightarrow> bool" where
  "textual (JArr xs) = list_all textual xs"
| "textual (JObj ps) = (''toString'' \<notin> fst ` set ps)"
| "textual v = True"

text \<open>\<open>String.prototype.toLowerCase\<close>, \<open>String.prototype.toUpperCase\<close> and lodash's
  \<open>_.capitalize\<close> (first unit upper case, the rest lower case). The upper-case letters
  below U+0100 are \<open>A\<close> to \<open>Z\<close> and U+00C0 to U+00DE but for the multiplication sign
  U+00D7; the lower case of each is 32 above. The lower-case letters with an upper case
  32 below are \<open>a\<close> to \<open>z\<close> and U+00E0 to U+00FE but for the division sign U+00F7. Three
  more units have an upper case, which is not a unit below U+0100 (U+00DF gives \<open>SS\<close>,
  U+00B5 gives U+039C, U+00FF gives U+0178): \<open>upperChar\<close> keeps them, so upper-casing
  is that of the code for the strings without these three.\<close>

definition lowerChar :: "char \<Rightarrow> char" where
  "lowerChar c =
     (let n = (of_char c :: nat)
      in if (65 \<le> n \<and> n \<le> 90) \<or> (192 \<le> n \<and> n \<le> 222 \<and> n \<noteq> 215) then char_of (n + 32) else c)"

definition upperChar :: "char \<Rightarrow> char" where
  "upperChar c =
     (let n = (of_char c :: nat)
      in if (97 \<le> n \<and> n \<le> 122) \<or> (224 \<le> n \<and> n \<le> 254 \<and> n \<noteq> 247) then char_of (n - 32) else c)"

definition toLowerCase :: "string \<Rightarrow> string" where
  "toLowerCase s = map lowerChar s"

definition toUpperCase :: "string \<Rightarrow> string" where
  "toUpperCase s = map upperChar s"

definition capitalize :: "string \<Rightarrow> string" where
  "capitalize s = (case toLowerCase s of [] \<Rightarrow> [] | c # cs \<Rightarrow> upperChar c # cs)"

text \<open>
  What lodash's \<open>_.each\<close> and \<open>_.map\<close> visit, as (value, key) pairs in order. An array and
  a string are visited by index. An object whose own \<open>length\<close> is a valid length
  (lodash's \<open>isArrayLike\<close>) is visited by index as well, \<open>0\<close> to \<open>length - 1\<close>; any other
  object by its own properties, in the order of \<open>enumerable\<close> below. \<open>undefined\<close>,
  \<open>null\<close>, booleans and numbers have nothing to visit.
\<close>

definition MAX_SAFE_INTEGER :: int where
  "MAX_SAFE_INTEGER = 9007199254740991"

fun isLength :: "jsval \<Rightarrow> bool" where
  "isLength (JNum n) = (- 1 < n \<and> n \<le> MAX_SAFE_INTEGER)"
| "isLength v = False"

fun isArrayLike :: "jsval \<Rightarrow> bool" where
  "isArrayLike (JArr xs) = True"
| "isArrayLike (JStr s) = True"
| "isArrayLike (JObj ps) = isLength (own ps ''length'')"
| "isArrayLike v = False"

text \<open>\<open>v.length\<close> and \<open>v[i]\<close> of an array-like value, for \<open>i\<close> below the length.\<close>

fun getLength :: "jsval \<Rightarrow> nat" where
  "getLength (JArr xs) = length xs"
| "getLength (JStr s) = length s"
| "getLength (JObj ps) = (case own ps ''length'' of JNum n \<Rightarrow> nat n | _ \<Rightarrow> 0)"
| "getLength v = 0"

fun getIndex :: "jsval \<Rightarrow> nat \<Rightarrow> jsval" where
  "getIndex (JArr xs) i = (if i < length xs then xs ! i else JUndefined)"
| "getIndex (JStr s) i = (if i < length s then JStr [s ! i] else JUndefined)"
| "getIndex (JObj ps) i = own ps (digits i)"
| "getIndex v i = JUndefined"

text \<open>
  The order in which JavaScript enumerates the own properties of an object
  (\<open>Object.keys\<close>, which lodash uses): the keys that are array indices (the decimal text
  of an integer below \<open>2^32 - 1\<close>) come first, in ascending numeric order, then the
  other keys in insertion order.
\<close>

definition isIndexKey :: "string \<Rightarrow> bool" where
  "isIndexKey s \<longleftrightarrow>
     s \<noteq> [] \<and> list_all (\<lambda>c. c \<in> set ''0123456789'') s \<and> (s = ''0'' \<or> hd s \<noteq> CHR ''0'')
     \<and> (length s < 10 \<or> (length s = 10 \<and> lexordp (<) (map (of_char :: char \<Rightarrow> nat) s)
                                              (map of_char ''4294967295'')))"

text \<open>The numeric order of two index keys: the shorter one first, and of two of the same
  length the one that is first by its digits.\<close>

definition indexLess :: "string \<Rightarrow> string \<Rightarrow> bool" where
  "indexLess a b \<longleftrightarrow>
     length a < length b
     \<or> (length a = length b \<and> lexordp (<) (map (of_char :: char \<Rightarrow> nat) a) (map of_char b))"

fun insertIndex :: "string \<times> jsval \<Rightarrow> (string \<times> jsval) list \<Rightarrow> (string \<times> jsval) list" where
  "insertIndex p [] = [p]"
| "insertIndex p (q # qs) =
     (if indexLess (fst p) (fst q) then p # q # qs else q # insertIndex p qs)"

definition enumerable :: "(string \<times> jsval) list \<Rightarrow> (string \<times> jsval) list" where
  "enumerable ps =
     foldr insertIndex (filter (\<lambda>p. isIndexKey (fst p)) ps) []
     @ filter (\<lambda>p. \<not> isIndexKey (fst p)) ps"

definition entries :: "jsval \<Rightarrow> (jsval \<times> jsval) list" where
  "entries collection =
     (if isArrayLike collection
      then map (\<lambda>i. (getIndex collection i, JNum (int i))) [0..<getLength collection]
      else case collection of
             JObj ps \<Rightarrow> map (\<lambda>(k, v). (v, JStr k)) (enumerable ps)
           | _ \<Rightarrow> [])"

text \<open>A mapping from names to values: an object that lodash does not take for an
  array-like, none of whose keys is an array index. It is visited in insertion order.\<close>

definition plainMapping :: "(string \<times> jsval) list \<Rightarrow> bool" where
  "plainMapping ps \<longleftrightarrow> \<not> isArrayLike (JObj ps) \<and> list_all (\<lambda>p. \<not> isIndexKey (fst p)) ps"

text \<open>\<open>_.isEmpty\<close>.\<close>

fun isEmpty :: "jsval \<Rightarrow> bool" where
  "isEmpty (JArr xs) = (xs = [])"
| "isEmpty (JStr s) = (s = [])"
| "isEmpty (JObj ps) = (ps = [])"
| "isEmpty v = True"

section \<open>The converter\<close>

definition MIN_HELP_TEXT_LENGTH :: nat where
  "MIN_HELP_TEXT_LENGTH = 10"

text \<open>
  \<open>typesMap\<close> is an object literal, so \<open>typesMap[k]\<close> finds the eight own entries and,
  for any other \<open>k\<close>, whatever \<open>Object.prototype\<close> has under that name: its methods,
  its \<open>constructor\<close> (the function \<open>Object\<close>) and its \<open>__proto__\<close> accessor (which
  gives \<open>Object.prototype\<close> itself).
\<close>

definition typesMap :: "(string \<times> string) list" where
  "typesMap =
     [(''unicode'', ''string''),
      (''textarea'', ''text''),
      (''integer'', ''integer''),
      (''float'', ''number''),
      (''boolean'', ''boolean''),
      (''datetime'', ''datetime''),
      (''file'', ''file''),
      (''password'', ''password'')]"

datatype member =
    Own string
  | NativeFunction string
  | ObjectPrototype
  | Absent

definition objectPrototypeMethods :: "string list" where
  "objectPrototypeMethods =
     [''hasOwnProperty'', ''isPrototypeOf'', ''propertyIsEnumerable'', ''toLocaleString'',
      ''toString'', ''valueOf'', ''__defineGetter__'', ''__defineSetter__'',
      ''__lookupGetter__'', ''__lookupSetter__'']"

definition inherited :: "string \<Rightarrow> member" where
  "inherited k =
     (if k = ''constructor'' then NativeFunction ''Object''
      else if k = ''__proto__'' then ObjectPrototype
      else if k \<in> set objectPrototypeMethods then NativeFunction k
      else Absent)"

definition typesMapGet :: "string \<Rightarrow> member" where
  "typesMapGet k = (case map_of typesMap k of Some v \<Rightarrow> Own v | None \<Rightarrow> inherited k)"

fun memberTruthy :: "member \<Rightarrow> bool" where
  "memberTruthy (Own v) = (v \<noteq> [])"
| "memberTruthy Absent = False"
| "memberTruthy m = True"

fun memberToString :: "member \<Rightarrow> string" where
  "memberToString (Own v) = v"
| "memberToString (NativeFunction n) = ''function '' @ n @ ''() { [native code] }''"
| "memberToString ObjectPrototype = ''[object Object]''"
| "memberToString Absent = ''undefined''"

definition padHelpText :: "jsval \<Rightarrow> string" where
  "padHelpText text =
     (let msg = ''(help text must be at least '' @ digits MIN_HELP_TEXT_LENGTH @ '' characters)''
      in if \<not> isString text then msg
         else case text of
           JStr s \<Rightarrow> if length s < MIN_HELP_TEXT_LENGTH then s @ '' '' @ msg else s
         | _ \<Rightarrow> msg)"

text \<open>
  \<open>renderProp\<close> and \<open>quote\<close> are template literals; the conversion of their arguments
  to text (\<open>toString\<close>, \<open>memberToString\<close>) is done by the caller here, where it can throw.
\<close>

definition renderProp :: "string \<Rightarrow> string \<Rightarrow> string" where
  "renderProp key val = key @ '': '' @ val"

definition quote :: "string \<Rightarrow> string" where
  "quote s = [CHR 0x27] @ s @ [CHR 0x27]"

definition spaces :: "nat \<Rightarrow> string" where
  "spaces n = replicate n CHR '' ''"

definition newline :: string where
  "newline = [CHR 0x0A]"

text \<open>
  The first line of \<open>renderField\<close>:
  \<open>definition.type && typesMap[definition.type.toLowerCase()] || 'string'\<close>.
  A truthy \<open>type\<close> that is not a string has no \<open>toLowerCase\<close> method, and the call
  throws.
\<close>

definition renderFieldType :: "jsval \<Rightarrow> error + member" where
  "renderFieldType t =
     (if truthy t
      then (case t of
              JStr s \<Rightarrow>
                (let m = typesMapGet (toLowerCase s)
                 in Inr (if memberTruthy m then m else Own ''string''))
            | _ \<Rightarrow> Inl TypeError)
      else Inr (Own ''string''))"

definition renderField :: "jsval \<Rightarrow> jsval \<Rightarrow> error + string" where
  "renderField definition key =
     bind (getProp definition ''type'') (\<lambda>t.
     bind (renderFieldType t) (\<lambda>type.
     bind (toString key) (\<lambda>keyText.
     bind (getProp definition ''label'') (\<lambda>label.
     bind (toString label) (\<lambda>labelText.
     bind (getProp definition ''help_text'') (\<lambda>help_text.
     bind (getProp definition ''required'') (\<lambda>required.
     bind (getProp definition ''placeholder'') (\<lambda>placeholder.
     bind (if truthy placeholder
           then bind (toString placeholder) (\<lambda>p. Inr [renderProp ''placeholder'' (quote p)])
           else Inr []) (\<lambda>pushed.
     let props =
           [renderProp ''key'' (quote keyText),
            renderProp ''label'' (quote labelText),
            renderProp ''helpText'' (quote (padHelpText help_text)),
            renderProp ''type'' (quote (memberToString type)),
            renderProp ''required'' (if truthy required then ''true'' else ''false'')]
           @ pushed;
         props = map (\<lambda>s. spaces 8 @ s) props
     in Inr (spaces 6 @ ''{'' @ newline @ join ('','' @ newline) props @ newline
             @ spaces 6 @ ''}''))))))))))"

definition renderSampleField :: "jsval \<Rightarrow> error + string" where
  "renderSampleField def =
     bind (getProp def ''type'') (\<lambda>t.
     bind (toString t) (\<lambda>name.
     let type = typesMapGet name in
     bind (getProp def ''key'') (\<lambda>key.
     bind (toString key) (\<lambda>keyText.
     bind (getProp def ''label'') (\<lambda>label.
     bind (toString label) (\<lambda>labelText.
     Inr (spaces 6 @ keyText @ '': {'' @ newline
          @ spaces 8 @ ''type: '' @ quote (memberToString type) @ '','' @ newline
          @ spaces 8 @ ''label: '' @ quote labelText @ newline
          @ spaces 6 @ ''}'')))))))"

definition renderSample :: "jsval \<Rightarrow> error + string" where
  "renderSample definition =
     bind (getProp definition ''sample_result_fields'') (\<lambda>sample_result_fields.
     bind (collect (map (\<lambda>(def, key). renderSampleField def) (entries sample_result_fields)))
       (\<lambda>fields.
     Inr (spaces 4 @ ''sample: {'' @ newline @ join ('','' @ newline) fields @ newline
          @ spaces 4 @ ''}'')))"

section \<open>Collaborators\<close>

text \<open>
  The modules \<open>./misc\<close>, \<open>./files\<close> and \<open>./display\<close>, the template files and the
  libraries are not part of the converter. \<open>camelCase\<close> and \<open>snakeCase\<close> (of \<open>./misc\<close>),
  \<open>_.kebabCase\<close> and the template engine \<open>_.template\<close> are parameters; so are the
  directory of the templates, what \<open>readFile\<close> finds at a path and whether
  \<open>ensureDir\<close> and \<open>writeFile\<close> fail at a path.
\<close>

type_synonym ctx = "(string \<times> jsval) list"

record env =
  camelCase :: "jsval \<Rightarrow> string"
  snakeCase :: "jsval \<Rightarrow> string"
  kebabCase :: "jsval \<Rightarrow> string"
  TEMPLATE_DIR :: string
  readFile :: "string \<Rightarrow> error + string"
  lodashTemplate :: "string \<Rightarrow> ctx \<Rightarrow> error + string"
  ensureDirError :: "string \<Rightarrow> error option"
  writeFileError :: "string \<Rightarrow> error option"

datatype event = Starting string | Done

record world =
  dirs :: "string set"
  files :: "string \<rightharpoonup> string"
  display :: "event list"

text \<open>A settled promise; \<open>thenP\<close> is \<open>.then\<close> with one callback.\<close>

datatype 'a promise = Resolved 'a | Rejected error

definition thenP :: "'a promise \<Rightarrow> ('a \<Rightarrow> 'b promise) \<Rightarrow> 'b promise" where
  "thenP p f = (case p of Rejected e \<Rightarrow> Rejected e | Resolved x \<Rightarrow> f x)"

definition settle :: "error + 'a \<Rightarrow> 'a promise" where
  "settle r = (case r of Inl e \<Rightarrow> Rejected e | Inr x \<Rightarrow> Resolved x)"

text \<open>
  \<open>Promise.all\<close>: resolved with every value when every promise is resolved, rejected
  otherwise. Which rejection it passes on is a matter of timing; the model takes the
  first in the order of the array.
\<close>

fun promiseAll :: "'a promise list \<Rightarrow> 'a list promise" where
  "promiseAll [] = Resolved []"
| "promiseAll (p # ps) =
     (case p of
        Rejected e \<Rightarrow> Rejected e
      | Resolved x \<Rightarrow> (case promiseAll ps of Rejected e \<Rightarrow> Rejected e | Resolved xs \<Rightarrow> Resolved (x # xs)))"

text \<open>
  \<open>path.join\<close> and \<open>path.dirname\<close> of Node, on a POSIX system (the separator is
  \<open>/\<close>). \<open>path.join\<close> drops the empty arguments, joins the others with the separator
  and normalises the result: \<open>segments\<close> splits a path at its separators, and
  \<open>normalizeString\<close> walks the segments, dropping the empty ones and \<open>.\<close>, and
  resolving \<open>..\<close> against the segment before it (kept at the front of a relative
  path, dropped at the root of an absolute one); its accumulator holds the segments kept
  so far, last first. A trailing separator survives normalisation. \<open>path.dirname\<close>
  skips the trailing separators and cuts at the last separator before them, which is
  never the first character of the path.
\<close>

fun segments :: "string \<Rightarrow> string list" where
  "segments [] = [[]]"
| "segments (c # cs) =
     (if c = CHR ''/'' then [] # segments cs
      else (case segments cs of [] \<Rightarrow> [[c]] | s # ss \<Rightarrow> (c # s) # ss))"

fun normalizeString :: "bool \<Rightarrow> string list \<Rightarrow> string list \<Rightarrow> string list" where
  "normalizeString allowAboveRoot res [] = rev res"
| "normalizeString allowAboveRoot res (s # ss) =
     (if s = [] \<or> s = ''.'' then normalizeString allowAboveRoot res ss
      else if s = ''..'' then
        (case res of
           [] \<Rightarrow> normalizeString allowAboveRoot (if allowAboveRoot then [''..''] else []) ss
         | r # rs \<Rightarrow>
             if r = ''..'' then normalizeString allowAboveRoot (if allowAboveRoot then ''..'' # res else res) ss
             else normalizeString allowAboveRoot rs ss)
      else normalizeString allowAboveRoot (s # res) ss)"

definition normalizePath :: "string \<Rightarrow> string" where
  "normalizePath p =
     (if p = [] then ''.''
      else
        let isAbsolute = (hd p = CHR ''/'');
            trailingSeparator = (last p = CHR ''/'');
            p1 = join ''/'' (normalizeString (\<not> isAbsolute) [] (segments p));
            p2 = (if p1 = [] \<and> \<not> isAbsolute then ''.'' else p1);
            p3 = (if p2 \<noteq> [] \<and> trailingSeparator then p2 @ ''/'' else p2)
        in if isAbsolute then CHR ''/'' # p3 else p3)"

definition pathJoin :: "string \<Rightarrow> string \<Rightarrow> string" where
  "pathJoin dir name =
     (let joined = join ''/'' (filter (\<lambda>s. s \<noteq> []) [dir, name])
      in if joined = [] then ''.'' else normalizePath joined)"

definition dirname :: "string \<Rightarrow> string" where
  "dirname p =
     (if p = [] then ''.''
      else
        let hasRoot = (hd p = CHR ''/'');
            r = dropWhile (\<lambda>c. c \<noteq> CHR ''/'')
                  (dropWhile (\<lambda>c. c = CHR ''/'') (rev (tl p)))
        in if r = [] then (if hasRoot then ''/'' else ''.'')
           else if hasRoot \<and> tl r = [] then ''//''
           else hd p # rev (tl r))"

text \<open>
  Modelled from the spec: \<open>ensureDir\<close> and \<open>writeFile\<close> of \<open>./files\<close> (creating a
  directory is idempotent, writing a file overwrites it) and the notifier of
  \<open>./display\<close> (called once a file is written, with no effect on control flow).
\<close>

definition ensureDir :: "env \<Rightarrow> string \<Rightarrow> world \<Rightarrow> unit promise \<times> world" where
  "ensureDir env dir w =
     (case ensureDirError env dir of
        Some e \<Rightarrow> (Rejected e, w)
      | None \<Rightarrow> (Resolved (), w\<lparr>dirs := insert dir (dirs w)\<rparr>))"

definition writeFile :: "env \<Rightarrow> string \<Rightarrow> string \<Rightarrow> world \<Rightarrow> unit promise \<times> world" where
  "writeFile env destFile content w =
     (case writeFileError env destFile of
        Some e \<Rightarrow> (Rejected e, w)
      | None \<Rightarrow> (Resolved (), w\<lparr>files := (files w)(destFile \<mapsto> content)\<rparr>))"

definition printStarting :: "string \<Rightarrow> world \<Rightarrow> world" where
  "printStarting msg w = w\<lparr>display := display w @ [Starting msg]\<rparr>"

definition printDone :: "world \<Rightarrow> world" where
  "printDone w = w\<lparr>display := display w @ [Done]\<rparr>"

section \<open>Rendering and writing files\<close>

text \<open>
  A function of the source that returns a promise has two parts here: what it does
  before it returns, which may throw (\<open>Inl\<close>), and the promise it returns. A promise
  that only reads is given settled; one that writes is a task, a function of the world
  that gives what the promise settles to and the world it leaves.
\<close>

type_synonym task = "world \<Rightarrow> unit promise \<times> world"

definition stepNamesMap :: "(string \<times> string) list" where
  "stepNamesMap = [(''triggers'', ''trigger''), (''searches'', ''search''), (''actions'', ''write'')]"

definition renderTemplate :: "env \<Rightarrow> string \<Rightarrow> ctx \<Rightarrow> string promise" where
  "renderTemplate env templateFile templateContext =
     thenP (settle (readFile env templateFile))
       (\<lambda>template. settle (lodashTemplate env template templateContext))"

definition createFile :: "env \<Rightarrow> string \<Rightarrow> string \<Rightarrow> string \<Rightarrow> task" where
  "createFile env content fileName dir w =
     (let destFile = pathJoin dir fileName
      in case ensureDir env (dirname destFile) w of
           (Rejected e, w1) \<Rightarrow> (Rejected e, w1)
         | (Resolved u, w1) \<Rightarrow>
             (case writeFile env destFile content w1 of
                (Rejected e, w2) \<Rightarrow> (Rejected e, w2)
              | (Resolved u, w2) \<Rightarrow>
                  (Resolved (), printDone (printStarting (''Writing '' @ fileName) w2))))"

text \<open>
  In \<open>renderStep\<close>, \<open>key.toLowerCase()\<close> throws when the key is not a string: the keys
  that \<open>_.each\<close> hands over are strings for the properties of an object and numbers for
  the indices of an array. For a string key, \<open>_.capitalize(key)\<close> is \<open>capitalize\<close> of
  the key.
\<close>

definition renderStep :: "env \<Rightarrow> string \<Rightarrow> jsval \<Rightarrow> jsval \<Rightarrow> error + string promise" where
  "renderStep env type definition key =
     bind (getProp definition ''fields'') (\<lambda>fs.
     bind (collect (map (\<lambda>(d, k). renderField d k) (entries fs))) (\<lambda>fields.
     bind (getProp definition ''sample_result_fields'') (\<lambda>sample_result_fields.
     bind (if \<not> isEmpty sample_result_fields
           then bind (renderSample definition) (\<lambda>s. Inr (s @ '','' @ newline))
           else Inr []) (\<lambda>sample.
     bind (case key of JStr s \<Rightarrow> Inr s | _ \<Rightarrow> Inl TypeError) (\<lambda>keyText.
     let templateContext =
           [(''KEY'', JStr (snakeCase env key)),
            (''CAMEL'', JStr (camelCase env key)),
            (''NOUN'', JStr (capitalize keyText)),
            (''LOWER_NOUN'', JStr (toLowerCase keyText)),
            (''FIELDS'', JStr (join ('','' @ newline) fields)),
            (''SAMPLE'', JStr sample)];
         templateFile = pathJoin (TEMPLATE_DIR env) (''/'' @ type @ ''.template.js'')
     in Inr (renderTemplate env templateFile templateContext))))))"

definition stepTypeMap :: "(string \<times> string) list" where
  "stepTypeMap = [(''trigger'', ''triggers''), (''search'', ''searches''), (''write'', ''writes'')]"

text \<open>\<open>p.then(content => createFile(content, fileName, dir))\<close>, the task that the three
  writers return.\<close>

definition thenCreateFile :: "env \<Rightarrow> string promise \<Rightarrow> string \<Rightarrow> string \<Rightarrow> task" where
  "thenCreateFile env p fileName dir w =
     (case p of
        Rejected e \<Rightarrow> (Rejected e, w)
      | Resolved content \<Rightarrow> createFile env content fileName dir w)"

definition writeStep :: "env \<Rightarrow> string \<Rightarrow> jsval \<Rightarrow> jsval \<Rightarrow> string \<Rightarrow> error + task" where
  "writeStep env type definition key newAppDir =
     (let fileName =
            (case map_of stepTypeMap type of Some d \<Rightarrow> d | None \<Rightarrow> ''undefined'')
            @ ''/'' @ snakeCase env key @ ''.js''
      in bind (renderStep env type definition key) (\<lambda>p.
         Inr (thenCreateFile env p fileName newAppDir)))"

definition dirMap :: "(string \<times> string) list" where
  "dirMap = [(''trigger'', ''triggers''), (''search'', ''searches''), (''write'', ''writes'')]"

definition setProp :: "string \<Rightarrow> jsval \<Rightarrow> ctx \<Rightarrow> ctx" where
  "setProp k v c =
     (if k \<in> fst ` set c then map (\<lambda>(k', v'). if k' = k then (k', v) else (k', v')) c
      else c @ [(k, v)])"

text \<open>
  The body of the inner \<open>_.each\<close> of \<open>renderIndex\<close>: the import line and the mapping
  line of one step.
\<close>

definition renderIndexEntry :: "env \<Rightarrow> string \<Rightarrow> jsval \<times> jsval \<Rightarrow> string \<times> string" where
  "renderIndexEntry env v3Type entry =
     (let name = snd entry;
          varName = camelCase env name @ capitalize (camelCase env (JStr v3Type));
          requireFile =
            (case map_of dirMap v3Type of Some d \<Rightarrow> d | None \<Rightarrow> ''undefined'')
            @ ''/'' @ snakeCase env name
      in (''const '' @ varName @ '' = require('./'' @ requireFile @ [CHR 0x27] @ '');'',
          ''['' @ varName @ ''.key]: '' @ varName @ '',''))"

text \<open>The outer \<open>_.each\<close> of \<open>renderIndex\<close>, over \<open>stepNamesMap\<close>, with the two
  variables it updates.\<close>

fun renderIndexEach ::
  "env \<Rightarrow> jsval \<Rightarrow> (string \<times> string) list \<Rightarrow> string list \<times> ctx \<Rightarrow> error + string list \<times> ctx"
where
  "renderIndexEach env legacyApp [] acc = Inr acc"
| "renderIndexEach env legacyApp ((v2Type, v3Type) # rest) (importLines, templateContext) =
     bind (getProp legacyApp v2Type) (\<lambda>steps.
     let rendered = map (renderIndexEntry env v3Type) (entries steps);
         importLines = importLines @ map fst rendered;
         lines = map snd rendered
     in bind (case map_of dirMap v3Type of
                Some d \<Rightarrow> Inr (toUpperCase d)
              | None \<Rightarrow> Inl TypeError) (\<lambda>section.
        renderIndexEach env legacyApp rest
          (importLines, setProp section (JStr (join ('','' @ newline) lines)) templateContext)))"

definition renderIndexContext :: "env \<Rightarrow> jsval \<Rightarrow> error + ctx" where
  "renderIndexContext env legacyApp =
     bind (renderIndexEach env legacyApp stepNamesMap
             ([], [(''TRIGGERS'', JStr []), (''SEARCHES'', JStr []), (''WRITES'', JStr [])]))
       (\<lambda>(importLines, templateContext).
          Inr (setProp ''REQUIRES'' (JStr (join newline importLines)) templateContext))"

definition renderIndex :: "env \<Rightarrow> jsval \<Rightarrow> error + string promise" where
  "renderIndex env legacyApp =
     bind (renderIndexContext env legacyApp) (\<lambda>templateContext.
     let templateFile = pathJoin (TEMPLATE_DIR env) ''/index.template.js''
     in Inr (renderTemplate env templateFile templateContext))"

definition writeIndex :: "env \<Rightarrow> jsval \<Rightarrow> string \<Rightarrow> error + task" where
  "writeIndex env legacyApp newAppDir =
     bind (renderIndex env legacyApp) (\<lambda>p.
     Inr (thenCreateFile env p ''index.js'' newAppDir))"

definition renderPackageJson :: "env \<Rightarrow> jsval \<Rightarrow> error + string promise" where
  "renderPackageJson env legacyApp =
     bind (getProp legacyApp ''general'') (\<lambda>general.
     bind (getProp general ''title'') (\<lambda>title.
     bind (getProp general ''description'') (\<lambda>description.
     let templateContext =
           [(''NAME'', JStr (kebabCase env title)),
            (''DESCRIPTION'', description)];
         templateFile = pathJoin (TEMPLATE_DIR env) ''/package.template.json''
     in Inr (renderTemplate env templateFile templateContext))))"

definition writePackageJson :: "env \<Rightarrow> jsval \<Rightarrow> string \<Rightarrow> error + task" where
  "writePackageJson env legacyApp newAppDir =
     bind (renderPackageJson env legacyApp) (\<lambda>p.
     Inr (thenCreateFile env p ''package.json'' newAppDir))"

text \<open>
  \<open>convertApp\<close> calls \<open>writeStep\<close> for every step, then \<open>writeIndex\<close> and
  \<open>writePackageJson\<close>, each call giving the promise it pushes. A call that throws
  ends \<open>convertApp\<close> with that exception; the tasks pushed before it stay scheduled.
  \<open>pushed\<close> gives the tasks pushed and the exception, if any.
\<close>

fun pushed :: "(error + 'a) list \<Rightarrow> 'a list \<times> error option" where
  "pushed [] = ([], None)"
| "pushed (Inl e # ms) = ([], Some e)"
| "pushed (Inr x # ms) = (case pushed ms of (xs, r) \<Rightarrow> (x # xs, r))"

definition stepCalls :: "env \<Rightarrow> jsval \<Rightarrow> string \<Rightarrow> string \<times> string \<Rightarrow> (error + task) list" where
  "stepCalls env legacyApp newAppDir names =
     (case getProp legacyApp (fst names) of
        Inl e \<Rightarrow> [Inl e]
      | Inr steps \<Rightarrow>
          map (\<lambda>(definition, key). writeStep env (snd names) definition key newAppDir)
            (entries steps))"

definition calls :: "env \<Rightarrow> jsval \<Rightarrow> string \<Rightarrow> (error + task) list" where
  "calls env legacyApp newAppDir =
     concat (map (stepCalls env legacyApp newAppDir) stepNamesMap)
     @ [writeIndex env legacyApp newAppDir, writePackageJson env legacyApp newAppDir]"

text \<open>
  The scheduled tasks run to their end whatever becomes of the others. They are run
  here one after the other in the order they were pushed; JavaScript interleaves
  them, which shows only when two of them write the same path.
\<close>

fun runAll :: "task list \<Rightarrow> world \<Rightarrow> unit promise list \<times> world" where
  "runAll [] w = ([], w)"
| "runAll (t # ts) w =
     (case t w of (p, w1) \<Rightarrow> (case runAll ts w1 of (ps, w2) \<Rightarrow> (p # ps, w2)))"

definition convertApp ::
  "env \<Rightarrow> jsval \<Rightarrow> string \<Rightarrow> world \<Rightarrow> (error + unit list promise) \<times> world" where
  "convertApp env legacyApp newAppDir w =
     (case pushed (calls env legacyApp newAppDir) of
        (promises, thrown) \<Rightarrow>
          (case runAll promises w of
             (settled, w') \<Rightarrow>
               (case thrown of Some e \<Rightarrow> Inl e | None \<Rightarrow> Inr (promiseAll settled), w')))"

section \<open>What the specification says of the index\<close>

text \<open>
  The specification's words for the entries of the index: the variable of a step is its
  camel-cased key followed by the capitalized category noun; its import line requires
  the module at the category directory and the normalized key; its mapping line maps
  the module's key to the module.
\<close>

definition indexVarName :: "env \<Rightarrow> string \<Rightarrow> string \<Rightarrow> string" where
  "indexVarName env noun key = camelCase env (JStr key) @ noun"

definition indexImportLine :: "env \<Rightarrow> string \<Rightarrow> string \<Rightarrow> string \<Rightarrow> string" where
  "indexImportLine env dir noun key =
     ''const '' @ indexVarName env noun key @ '' = require('./'' @ dir @ ''/''
     @ snakeCase env (JStr key) @ [CHR 0x27] @ '');''"

definition indexMappingLine :: "env \<Rightarrow> string \<Rightarrow> string \<Rightarrow> string" where
  "indexMappingLine env noun key =
     ''['' @ indexVarName env noun key @ ''.key]: '' @ indexVarName env noun key @ '',''"

text \<open>The template of a step category puts the rendered fields into its output: whatever
  the context binds \<open>FIELDS\<close> to is part of the text the engine makes of the template.\<close>

definition usesFields :: "env \<Rightarrow> string \<Rightarrow> bool" where
  "usesFields env type =
     (\<forall>text c out v.
        readFile env (pathJoin (TEMPLATE_DIR env) (''/'' @ type @ ''.template.js'')) = Inr text
        \<and> lodashTemplate env text c = Inr out \<and> map_of c ''FIELDS'' = Some (JStr v)
        \<longrightarrow> sublist v out)"

section \<open>Collaborators for the examples\<close>

text \<open>
  A template engine that knows the one form \<open><%= NAME %>\<close>: it replaces it by the text
  of what the context binds \<open>NAME\<close> to (nothing for \<open>undefined\<close> and \<open>null\<close>), and fails
  on a name the context does not bind, as evaluating an unbound variable does.
\<close>

definition trim :: "string \<Rightarrow> string" where
  "trim s = rev (dropWhile (\<lambda>c. c = CHR '' '') (rev (dropWhile (\<lambda>c. c = CHR '' '') s)))"

fun interp :: "ctx \<Rightarrow> string option \<Rightarrow> string \<Rightarrow> error + string" where
  "interp c None [] = Inr []"
| "interp c (Some n) [] = Inl SyntaxError"
| "interp c None (x # xs) =
     (if x = CHR ''<'' \<and> take 2 xs = ''%=''
      then interp c (Some []) (drop 2 xs)
      else bind (interp c None xs) (\<lambda>r. Inr (x # r)))"
| "interp c (Some n) (x # xs) =
     (if x = CHR ''%'' \<and> take 1 xs = ''>''
      then (case map_of c (trim n) of
              None \<Rightarrow> Inl ReferenceError
            | Some v \<Rightarrow>
                bind (if v = JUndefined \<or> v = JNull then Inr [] else toString v) (\<lambda>s.
                bind (interp c None (drop 1 xs)) (\<lambda>r. Inr (s @ r))))
      else interp c (Some (n @ [x])) xs)"

definition interpolate :: "string \<Rightarrow> ctx \<Rightarrow> error + string" where
  "interpolate text c = interp c None text"

text \<open>Case functions that leave a key as it is, templates in \<open>/tpl\<close>, and a file system
  that never fails.\<close>

fun plain :: "jsval \<Rightarrow> string" where
  "plain (JStr s) = s"
| "plain (JNum n) = numberToString n"
| "plain v = []"

definition demoStepTemplate :: string where
  "demoStepTemplate = ''// <%= KEY %>\<newline>inputFields: [\<newline><%= FIELDS %>\<newline>],\<newline><%= SAMPLE %>''"

definition demoTemplates :: "(string \<times> string) list" where
  "demoTemplates =
     [(''/tpl/trigger.template.js'', demoStepTemplate),
      (''/tpl/search.template.js'', demoStepTemplate),
      (''/tpl/write.template.js'', demoStepTemplate),
      (''/tpl/index.template.js'', ''<%= REQUIRES %>\<newline>triggers: {<%= TRIGGERS %>}, searches: {<%= SEARCHES %>}, writes: {<%= WRITES %>}''),
      (''/tpl/package.template.json'', ''{ name: <%= NAME %>, description: <%= DESCRIPTION %> }'')]"

definition demoEnv :: "(string \<times> string) list \<Rightarrow> env" where
  "demoEnv templates =
     \<lparr>camelCase = plain, snakeCase = plain, kebabCase = plain,
      TEMPLATE_DIR = ''/tpl'',
      readFile = (\<lambda>path. case map_of templates path of
                            Some text \<Rightarrow> Inr text
                          | None \<Rightarrow> Inl (IOError ''ENOENT'')),
      lodashTemplate = interpolate,
      ensureDirError = (\<lambda>path. None),
      writeFileError = (\<lambda>path. None)\<rparr>"

definition demoWorld :: world where
  "demoWorld = \<lparr>dirs = {}, files = Map.empty, display = []\<rparr>"

definition demoApp :: jsval where
  "demoApp =
     JObj [(''general'', JObj [(''title'', JStr ''demo''), (''description'', JStr ''A demo'')]),
           (''triggers'', JObj [(''recipe'', JObj [(''fields'',
              JObj [(''style'', JObj [(''type'', JStr ''Unicode''), (''label'', JStr ''Style'')])])])]),
           (''searches'', JObj [(''find'', JObj [(''fields'', JObj [])])]),
           (''actions'', JObj [(''make'', JObj [(''fields'',
              JObj [(''count'', JObj [(''type'', JStr ''integer''), (''required'', JBool True)])])])])]"

text \<open>The same definition, but for the \<open>type\<close> of the field of its action, which is the
  number 42.\<close>

definition demoFaultyApp :: jsval where
  "demoFaultyApp =
     JObj [(''general'', JObj [(''title'', JStr ''demo''), (''description'', JStr ''A demo'')]),
           (''triggers'', JObj [(''recipe'', JObj [(''fields'',
              JObj [(''style'', JObj [(''type'', JStr ''Unicode''), (''label'', JStr ''Style'')])])])]),
           (''searches'', JObj [(''find'', JObj [(''fields'', JObj [])])]),
           (''actions'', JObj [(''make'', JObj [(''fields'',
              JObj [(''count'', JObj [(''type'', JNum 42), (''required'', JBool True)])])])])]"

section \<open>Basic facts\<close>

declare digits.simps [simp del]

lemma bind_Inr [simp]: "bind (Inr x) f = f x"
  by (simp add: bind_def)

lemma bind_Inl [simp]: "bind (Inl e) f = Inl e"
  by (simp add: bind_def)

lemma spaces_4: "spaces 4 = ''    ''"
  unfolding spaces_def by code_simp

lemma spaces_6: "spaces 6 = ''      ''"
  unfolding spaces_def by code_simp

lemma spaces_8: "spaces 8 = ''        ''"
  unfolding spaces_def by code_simp

lemma collect_Inr:
  "list_all2 (\<lambda>m y. m = Inr y) ms ys \<Longrightarrow> collect ms = Inr ys"
  by (induction ms ys rule: list_all2_induct) simp_all

lemma collect_ex:
  "list_all (\<lambda>m. \<exists>y. m = Inr y) ms \<Longrightarrow> \<exists>ys. collect ms = Inr ys"
  by (induction ms) auto

lemma toString_textual: "textual v \<Longrightarrow> \<exists>s. toString v = Inr s"
proof (induction v)
  case (JArr xs)
  have "list_all (\<lambda>m. \<exists>y. m = Inr y)
          (map (\<lambda>x. if x = JUndefined \<or> x = JNull then Inr [] else toString x) xs)"
    using JArr by (auto simp: list_all_iff)
  then obtain ss where
    "collect (map (\<lambda>x. if x = JUndefined \<or> x = JNull then Inr [] else toString x) xs) = Inr ss"
    using collect_ex by blast
  then show ?case by simp
qed simp_all

section \<open>Help text\<close>

lemma digits_ten: "digits 10 = ''10''"
  by code_simp

lemma digits_MIN_HELP_TEXT_LENGTH: "digits MIN_HELP_TEXT_LENGTH = ''10''"
  by (simp add: MIN_HELP_TEXT_LENGTH_def digits_ten)

lemma padHelpText_not_string:
  "\<not> isString text \<Longrightarrow> padHelpText text = ''(help text must be at least 10 characters)''"
  by (simp add: padHelpText_def digits_MIN_HELP_TEXT_LENGTH)

lemma padHelpText_string:
  "padHelpText (JStr s) =
     (if length s < 10 then s @ '' (help text must be at least 10 characters)'' else s)"
  by (simp add: padHelpText_def MIN_HELP_TEXT_LENGTH_def digits_ten)

lemma padHelpText_length: "10 \<le> length (padHelpText text)"
proof (cases "text")
  case (JStr s)
  then show ?thesis by (simp add: padHelpText_string)
qed (simp_all add: padHelpText_not_string)

text \<open>
  C3. \<open>padHelpText\<close> returns exactly the message
  \<open>(help text must be at least 10 characters)\<close> for every input that is not a string,
  the input followed by a space and that message for every string shorter than 10
  characters, and the input unchanged for every string of 10 characters or more.
\<close>

theorem padHelpText_cases:
  "(\<not> isString text \<longrightarrow> padHelpText text = ''(help text must be at least 10 characters)'')
   \<and> (length short < 10 \<longrightarrow>
        padHelpText (JStr short) = short @ '' (help text must be at least 10 characters)'')
   \<and> (10 \<le> length long \<longrightarrow> padHelpText (JStr long) = long)"
  by (simp add: padHelpText_not_string padHelpText_string)

theorem padHelpText_cases_witness:
  "padHelpText (JNum 42) = ''(help text must be at least 10 characters)''
   \<and> padHelpText (JStr ''hi'') = ''hi (help text must be at least 10 characters)''
   \<and> padHelpText (JStr ''this is long enough'') = ''this is long enough''"
  using padHelpText_cases [of "JNum 42" "''hi''" "''this is long enough''"] by simp

text \<open>
  C10. \<open>padHelpText\<close> is idempotent: applied to its own result (a string) it returns
  that result, because every result has at least 10 characters.
\<close>

theorem padHelpText_idempotent:
  "padHelpText (JStr (padHelpText text)) = padHelpText text
   \<and> 10 \<le> length (padHelpText text)"
  using padHelpText_length [of "text"] by (simp add: padHelpText_string)

section \<open>Fields\<close>

lemma renderField_shape:
  assumes "renderFieldType (own ps ''type'') = Inr type"
    and "toString key = Inr keyText"
    and "toString (own ps ''label'') = Inr labelText"
    and "truthy (own ps ''placeholder'') \<longrightarrow> toString (own ps ''placeholder'') = Inr placeholderText"
  shows "renderField (JObj ps) key =
     Inr (''      {\<newline>        key: '' @ quote keyText
          @ '',\<newline>        label: '' @ quote labelText
          @ '',\<newline>        helpText: '' @ quote (padHelpText (own ps ''help_text''))
          @ '',\<newline>        type: '' @ quote (memberToString type)
          @ '',\<newline>        required: '' @ (if truthy (own ps ''required'') then ''true'' else ''false'')
          @ (if truthy (own ps ''placeholder'')
             then '',\<newline>        placeholder: '' @ quote placeholderText else [])
          @ ''\<newline>      }'')"
  using assms
  by (simp add: renderField_def renderProp_def spaces_6 spaces_8 newline_def)

lemma renderFieldType_ok:
  "\<not> truthy t \<or> isString t \<Longrightarrow> \<exists>m. renderFieldType t = Inr m"
  by (cases t) (auto simp: renderFieldType_def Let_def)

lemma renderFieldType_throws:
  "truthy t \<Longrightarrow> \<not> isString t \<Longrightarrow> renderFieldType t = Inl TypeError"
  by (cases t) (auto simp: renderFieldType_def)

lemma renderField_type_throws:
  "truthy (own ps ''type'') \<Longrightarrow> \<not> isString (own ps ''type'') \<Longrightarrow>
   renderField (JObj ps) key = Inl TypeError"
  by (simp add: renderField_def renderFieldType_throws)

text \<open>
  C1, as amended. A field definition whose \<open>type\<close> is absent, falsy or a string, and
  whose key, label and (truthy) placeholder convert to text, is rendered to a
  fragment, whatever its \<open>help_text\<close> and \<open>required\<close> are. (A truthy \<open>type\<close> that is
  not a string makes \<open>renderField\<close> throw: \<open>renderField_type_throws\<close>.)
\<close>

theorem renderField_total:
  assumes "\<not> truthy (own ps ''type'') \<or> isString (own ps ''type'')"
    and "textual key"
    and "textual (own ps ''label'')"
    and "truthy (own ps ''placeholder'') \<longrightarrow> textual (own ps ''placeholder'')"
  shows "\<exists>fragment. renderField (JObj ps) key = Inr fragment"
proof -
  obtain m where m: "renderFieldType (own ps ''type'') = Inr m"
    using assms(1) renderFieldType_ok by blast
  obtain k where k: "toString key = Inr k"
    using assms(2) toString_textual by blast
  obtain l where l: "toString (own ps ''label'') = Inr l"
    using assms(3) toString_textual by blast
  obtain p where p: "truthy (own ps ''placeholder'') \<longrightarrow> toString (own ps ''placeholder'') = Inr p"
    using assms(4) toString_textual by (cases "truthy (own ps ''placeholder'')") auto
  show ?thesis
    using renderField_shape [OF m k l p] by blast
qed

theorem renderField_total_witness:
  "\<exists>fragment.
     renderField
       (JObj [(''type'', JStr ''Integer''), (''label'', JStr ''Age''), (''help_text'', JNull),
              (''required'', JStr ''yes''), (''placeholder'', JArr [JNum 1, JNull])])
       (JStr ''age'') = Inr fragment"
  using renderField_total
    [of "[(''type'', JStr ''Integer''), (''label'', JStr ''Age''), (''help_text'', JNull),
          (''required'', JStr ''yes''), (''placeholder'', JArr [JNum 1, JNull])]" "JStr ''age''"]
  by (simp add: own_def)

text \<open>
  C1 as stated fails: the definition \<open>{type: 42, label: 'Age'}\<close> has a truthy \<open>type\<close>
  without a \<open>toLowerCase\<close> method, and \<open>renderField\<close> throws a \<open>TypeError\<close>.
\<close>

theorem renderField_number_type_throws:
  "renderField (JObj [(''type'', JNum 42), (''label'', JStr ''Age'')]) (JStr ''age'') = Inl TypeError"
  by (simp add: renderField_def renderFieldType_def own_def)

text \<open>
  C4. \<open>renderField\<close> lists the properties \<open>key\<close>, \<open>label\<close>, \<open>helpText\<close>, \<open>type\<close>,
  \<open>required\<close> in this order, one to a line; \<open>required\<close> is \<open>Boolean(definition.required)\<close>,
  so \<open>false\<close> when the property is absent (\<open>own\<close> gives \<open>undefined\<close>); when
  \<open>definition.placeholder\<close> is truthy a quoted \<open>placeholder\<close> property follows as the
  last one, and otherwise there is none.
\<close>

theorem renderField_props:
  assumes "renderFieldType (own ps ''type'') = Inr type"
    and "toString key = Inr keyText"
    and "toString (own ps ''label'') = Inr labelText"
    and "truthy (own ps ''placeholder'') \<longrightarrow> toString (own ps ''placeholder'') = Inr placeholderText"
  shows "renderField (JObj ps) key =
     Inr (''      {\<newline>        key: '' @ quote keyText
          @ '',\<newline>        label: '' @ quote labelText
          @ '',\<newline>        helpText: '' @ quote (padHelpText (own ps ''help_text''))
          @ '',\<newline>        type: '' @ quote (memberToString type)
          @ '',\<newline>        required: '' @ (if truthy (own ps ''required'') then ''true'' else ''false'')
          @ (if truthy (own ps ''placeholder'')
             then '',\<newline>        placeholder: '' @ quote placeholderText else [])
          @ ''\<newline>      }'')
     \<and> (map_of ps ''required'' = None \<longrightarrow> \<not> truthy (own ps ''required''))"
  using renderField_shape [OF assms] by (simp add: own_def)

text \<open>The two examples of the specification: \<open>renderField({required: undefined}, "foo")\<close>
  and \<open>renderField({placeholder: "e.g. 123"}, "bar")\<close>.\<close>

theorem renderField_props_witness:
  "renderField (JObj [(''required'', JUndefined)]) (JStr ''foo'') =
     Inr ''      {\<newline>        key: 'foo',\<newline>        label: 'undefined',\<newline>        helpText: '(help text must be at least 10 characters)',\<newline>        type: 'string',\<newline>        required: false\<newline>      }''
   \<and> renderField (JObj [(''placeholder'', JStr ''e.g. 123'')]) (JStr ''bar'') =
     Inr ''      {\<newline>        key: 'bar',\<newline>        label: 'undefined',\<newline>        helpText: '(help text must be at least 10 characters)',\<newline>        type: 'string',\<newline>        required: false,\<newline>        placeholder: 'e.g. 123'\<newline>      }''"
  using renderField_props [of "[(''required'', JUndefined)]" "Own ''string''" "JStr ''foo''" "''foo''" "''undefined''" "[]"]
    renderField_props [of "[(''placeholder'', JStr ''e.g. 123'')]" "Own ''string''" "JStr ''bar''" "''bar''" "''undefined''" "''e.g. 123''"]
  by (simp add: own_def renderFieldType_def quote_def padHelpText_not_string)

section \<open>Field types\<close>

lemma lowerChar_not_upper:
  "\<not> (65 \<le> (of_char (lowerChar c) :: nat) \<and> (of_char (lowerChar c) :: nat) \<le> 90)"
  by (auto simp: lowerChar_def Let_def)

lemma toLowerCase_no_upper:
  "c \<in> set (toLowerCase s) \<Longrightarrow> \<not> (65 \<le> (of_char c :: nat) \<and> (of_char c :: nat) \<le> 90)"
  using lowerChar_not_upper by (auto simp: toLowerCase_def)

lemma inherited_lower:
  "inherited (toLowerCase s) =
     (if toLowerCase s = ''constructor'' then NativeFunction ''Object''
      else if toLowerCase s = ''__proto__'' then ObjectPrototype else Absent)"
proof -
  have "toLowerCase s \<notin> set objectPrototypeMethods"
  proof
    assume "toLowerCase s \<in> set objectPrototypeMethods"
    then have "\<exists>c \<in> set (toLowerCase s). 65 \<le> (of_char c :: nat) \<and> (of_char c :: nat) \<le> 90"
      unfolding objectPrototypeMethods_def by auto
    then show False using toLowerCase_no_upper by blast
  qed
  then show ?thesis by (simp add: inherited_def)
qed

lemma typesMap_distinct: "distinct (map fst typesMap)"
  unfolding typesMap_def by simp

lemma typesMap_nonempty: "list_all (\<lambda>(k, v). k \<noteq> [] \<and> v \<noteq> []) typesMap"
  unfolding typesMap_def by simp

lemma typesMapGet_own:
  "(k, v) \<in> set typesMap \<Longrightarrow> typesMapGet k = Own v"
  using map_of_is_SomeI [OF typesMap_distinct] by (simp add: typesMapGet_def)

lemma typesMapGet_other:
  "k \<notin> fst ` set typesMap \<Longrightarrow> typesMapGet k = inherited k"
proof -
  assume "k \<notin> fst ` set typesMap"
  then have "map_of typesMap k = None"
    using map_of_eq_None_iff [of typesMap k] by blast
  then show ?thesis by (simp add: typesMapGet_def)
qed

lemma renderFieldType_known:
  assumes "(k, v) \<in> set typesMap" and "toLowerCase token = k"
  shows "renderFieldType (JStr token) = Inr (Own v)"
proof -
  have "k \<noteq> [] \<and> v \<noteq> []"
    using assms(1) typesMap_nonempty by (auto simp: list_all_iff)
  moreover have "token \<noteq> []"
    using assms(2) \<open>k \<noteq> [] \<and> v \<noteq> []\<close> by (auto simp: toLowerCase_def)
  ultimately show ?thesis
    using typesMapGet_own [OF assms(1)] assms(2) by (simp add: renderFieldType_def)
qed

lemma renderFieldType_unknown:
  assumes "toLowerCase token \<notin> fst ` set typesMap"
    and "toLowerCase token \<noteq> ''constructor''" and "toLowerCase token \<noteq> ''__proto__''"
  shows "renderFieldType (JStr token) = Inr (Own ''string'')"
  using assms by (simp add: renderFieldType_def typesMapGet_other inherited_lower)

lemma renderFieldType_falsy:
  "\<not> truthy t \<Longrightarrow> renderFieldType t = Inr (Own ''string'')"
  by (simp add: renderFieldType_def)

lemma renderFieldType_UNICODE: "renderFieldType (JStr ''UNICODE'') = Inr (Own ''string'')"
proof -
  have "toLowerCase ''UNICODE'' = ''unicode''" by code_simp
  then show ?thesis
    using renderFieldType_known [of "''unicode''" "''string''" "''UNICODE''"]
    by (simp add: typesMap_def)
qed

text \<open>
  C2. The mapping of the first line of \<open>renderField\<close> gives the table's value for
  every token of the table in any letter case (\<open>renderFieldType_known\<close>) and
  \<open>string\<close> for a falsy type (\<open>renderFieldType_falsy\<close>) and for every other token
  that lower-cases to neither \<open>constructor\<close> nor \<open>__proto__\<close>
  (\<open>renderFieldType_unknown\<close>). Those two are absent from the table but found on its
  prototype: for the token \<open>constructor\<close> the mapped type is the function \<open>Object\<close>,
  not \<open>string\<close>, and the field is rendered with the text of that function.
\<close>

theorem renderField_constructor_type:
  "renderFieldType (JStr ''constructor'') = Inr (NativeFunction ''Object'')
   \<and> renderField (JObj [(''type'', JStr ''constructor''), (''label'', JStr ''Maker'')]) (JStr ''maker'') =
     Inr ''      {\<newline>        key: 'maker',\<newline>        label: 'Maker',\<newline>        helpText: '(help text must be at least 10 characters)',\<newline>        type: 'function Object() { [native code] }',\<newline>        required: false\<newline>      }''"
proof -
  have t: "renderFieldType (JStr ''constructor'') = Inr (NativeFunction ''Object'')"
    by code_simp
  show ?thesis
    using t renderField_shape [of "[(''type'', JStr ''constructor''), (''label'', JStr ''Maker'')]"
        "NativeFunction ''Object''" "JStr ''maker''" "''maker''" "''Maker''" "[]"]
    by (simp add: own_def quote_def padHelpText_not_string)
qed

section \<open>Samples\<close>

lemma renderSampleField_shape:
  assumes "toString (own dps ''type'') = Inr name"
    and "toString (own dps ''key'') = Inr keyText"
    and "toString (own dps ''label'') = Inr labelText"
  shows "renderSampleField (JObj dps) =
     Inr (''      '' @ keyText @ '': {\<newline>        type: '' @ quote (memberToString (typesMapGet name))
          @ '',\<newline>        label: '' @ quote labelText @ ''\<newline>      }'')"
  using assms by (simp add: renderSampleField_def spaces_6 spaces_8 newline_def)

lemma renderSample_shape:
  assumes "list_all2 (\<lambda>d f. renderSampleField d = Inr f)
             (map fst (entries (own ps ''sample_result_fields''))) rendered"
  shows "renderSample (JObj ps) =
     Inr (''    sample: {\<newline>'' @ join '',\<newline>'' rendered @ ''\<newline>    }'')"
proof -
  have "list_all2 (\<lambda>m y. m = Inr y)
          (map (\<lambda>(def, key). renderSampleField def) (entries (own ps ''sample_result_fields''))) rendered"
    using assms by (simp add: list_all2_map1 case_prod_unfold)
  then have "collect (map (\<lambda>(def, key). renderSampleField def)
               (entries (own ps ''sample_result_fields''))) = Inr rendered"
    by (rule collect_Inr)
  then show ?thesis
    by (simp add: renderSample_def spaces_4 newline_def)
qed

lemma inherited_names_lower:
  "list_all (\<lambda>n. toLowerCase n \<notin> fst ` set typesMap)
     (''constructor'' # ''__proto__'' # objectPrototypeMethods)"
  by code_simp

lemma typesMapGet_case_miss:
  assumes "toLowerCase token \<in> fst ` set typesMap" and "token \<notin> fst ` set typesMap"
  shows "typesMapGet token = Absent"
proof -
  have "token \<notin> set (''constructor'' # ''__proto__'' # objectPrototypeMethods)"
    using assms(1) inherited_names_lower by (auto simp: list_all_iff)
  then have "inherited token = Absent"
    by (simp add: inherited_def)
  then show ?thesis
    using typesMapGet_other [OF assms(2)] by simp
qed

text \<open>
  C5 as stated fails: the name of an entry is the \<open>key\<close> property of the field spec,
  not the key it is stored under. For the mapping \<open>{id: {type: 'integer', label: 'ID'}}\<close>
  the entry is named \<open>undefined\<close>, not \<open>id\<close>.
\<close>

theorem renderSample_mapping_key:
  "renderSample (JObj [(''sample_result_fields'',
       JObj [(''id'', JObj [(''type'', JStr ''integer''), (''label'', JStr ''ID'')])])]) =
     Inr ''    sample: {\<newline>      undefined: {\<newline>        type: 'integer',\<newline>        label: 'ID'\<newline>      }\<newline>    }''
   \<and> renderSample (JObj [(''sample_result_fields'',
       JObj [(''id'', JObj [(''type'', JStr ''integer''), (''label'', JStr ''ID'')])])]) \<noteq>
     Inr ''    sample: {\<newline>      id: {\<newline>        type: 'integer',\<newline>        label: 'ID'\<newline>      }\<newline>    }''"
  by code_simp

text \<open>
  C5, as amended. \<open>renderSample\<close> wraps the entries of the field specs, in the order
  \<open>_.map\<close> visits them and joined by a comma and a newline, in a \<open>sample: { ... }\<close>
  literal. The entry of a spec is named by the spec's own \<open>key\<close> property and gives
  the quoted text of \<open>typesMap[spec.type]\<close> and the quoted label. The type token is
  looked up as it is, not lower-cased: a token that is in the table only up to letter
  case maps to \<open>undefined\<close>, rendered as that word.
\<close>

theorem renderSample_entries:
  assumes "list_all2 (\<lambda>d f. renderSampleField d = Inr f)
             (map fst (entries (own ps ''sample_result_fields''))) rendered"
    and "toString (own dps ''type'') = Inr name"
    and "toString (own dps ''key'') = Inr keyText"
    and "toString (own dps ''label'') = Inr labelText"
    and "toLowerCase token \<in> fst ` set typesMap" and "token \<notin> fst ` set typesMap"
  shows "renderSample (JObj ps) =
           Inr (''    sample: {\<newline>'' @ join '',\<newline>'' rendered @ ''\<newline>    }'')
     \<and> renderSampleField (JObj dps) =
           Inr (''      '' @ keyText @ '': {\<newline>        type: '' @ quote (memberToString (typesMapGet name))
                @ '',\<newline>        label: '' @ quote labelText @ ''\<newline>      }'')
     \<and> typesMapGet token = Absent
     \<and> memberToString (typesMapGet token) = ''undefined''"
  using renderSample_shape [OF assms(1)] renderSampleField_shape [OF assms(2,3,4)]
    typesMapGet_case_miss [OF assms(5,6)]
  by simp

theorem renderSample_entries_witness:
  "renderSample (JObj [(''sample_result_fields'',
       JArr [JObj [(''type'', JStr ''float''), (''key'', JStr ''id''), (''label'', JStr ''ID'')],
             JObj [(''type'', JStr ''Unicode''), (''key'', JStr ''name''), (''label'', JStr ''Name'')]])]) =
     Inr ''    sample: {\<newline>      id: {\<newline>        type: 'number',\<newline>        label: 'ID'\<newline>      },\<newline>      name: {\<newline>        type: 'undefined',\<newline>        label: 'Name'\<newline>      }\<newline>    }''
   \<and> renderSampleField (JObj [(''type'', JStr ''Unicode''), (''key'', JStr ''name''), (''label'', JStr ''Name'')]) =
     Inr ''      name: {\<newline>        type: 'undefined',\<newline>        label: 'Name'\<newline>      }''
   \<and> typesMapGet ''Unicode'' = Absent"
proof -
  have 1: "list_all2 (\<lambda>d f. renderSampleField d = Inr f)
     (map fst (entries (own [(''sample_result_fields'',
       JArr [JObj [(''type'', JStr ''float''), (''key'', JStr ''id''), (''label'', JStr ''ID'')],
             JObj [(''type'', JStr ''Unicode''), (''key'', JStr ''name''), (''label'', JStr ''Name'')]])]
        ''sample_result_fields'')))
     [''      id: {\<newline>        type: 'number',\<newline>        label: 'ID'\<newline>      }'',
      ''      name: {\<newline>        type: 'undefined',\<newline>        label: 'Name'\<newline>      }'']"
    by code_simp
  have 2: "toString (own [(''type'', JStr ''Unicode''), (''key'', JStr ''name''), (''label'', JStr ''Name'')] ''type'')
     = Inr ''Unicode''"
    by code_simp
  have 3: "toString (own [(''type'', JStr ''Unicode''), (''key'', JStr ''name''), (''label'', JStr ''Name'')] ''key'')
     = Inr ''name''"
    by code_simp
  have 4: "toString (own [(''type'', JStr ''Unicode''), (''key'', JStr ''name''), (''label'', JStr ''Name'')] ''label'')
     = Inr ''Name''"
    by code_simp
  have 5: "toLowerCase ''Unicode'' \<in> fst ` set typesMap"
    by code_simp
  have 6: "''Unicode'' \<notin> fst ` set typesMap"
    by code_simp
  show ?thesis
    using renderSample_entries [OF 1 2 3 4 5 6] by (simp add: quote_def)
qed

section \<open>Index\<close>

lemma enumerable_plain:
  "list_all (\<lambda>p. \<not> isIndexKey (fst p)) ps \<Longrightarrow> enumerable ps = ps"
  by (simp add: enumerable_def list_all_iff filter_id_conv filter_empty_conv)

lemma entries_mapping:
  "plainMapping ps \<Longrightarrow> entries (JObj ps) = map (\<lambda>(k, v). (v, JStr k)) ps"
  by (simp add: entries_def plainMapping_def enumerable_plain)

lemma entries_single:
  "\<not> isArrayLike (JObj [(k, d)]) \<Longrightarrow> entries (JObj [(k, d)]) = [(d, JStr k)]"
  by (simp add: entries_def enumerable_def)

lemma toUpperCase_dirs:
  "toUpperCase ''triggers'' = ''TRIGGERS''" "toUpperCase ''searches'' = ''SEARCHES''"
  "toUpperCase ''writes'' = ''WRITES''"
  by code_simp+

lemma renderIndexContext_JObj:
  "renderIndexContext env (JObj aps) =
     Inr [(''TRIGGERS'', JStr (join '',\<newline>''
             (map (\<lambda>e. snd (renderIndexEntry env ''trigger'' e)) (entries (own aps ''triggers''))))),
          (''SEARCHES'', JStr (join '',\<newline>''
             (map (\<lambda>e. snd (renderIndexEntry env ''search'' e)) (entries (own aps ''searches''))))),
          (''WRITES'', JStr (join '',\<newline>''
             (map (\<lambda>e. snd (renderIndexEntry env ''write'' e)) (entries (own aps ''actions''))))),
          (''REQUIRES'', JStr (join ''\<newline>''
             (map (\<lambda>e. fst (renderIndexEntry env ''trigger'' e)) (entries (own aps ''triggers''))
              @ map (\<lambda>e. fst (renderIndexEntry env ''search'' e)) (entries (own aps ''searches''))
              @ map (\<lambda>e. fst (renderIndexEntry env ''write'' e)) (entries (own aps ''actions'')))))]"
  by (simp add: renderIndexContext_def stepNamesMap_def dirMap_def setProp_def toUpperCase_dirs
      newline_def comp_def)

lemma capitalize_noun:
  assumes "toLowerCase (camelCase env (JStr noun)) = noun"
  shows "capitalize (camelCase env (JStr noun)) = (case noun of [] \<Rightarrow> [] | c # cs \<Rightarrow> upperChar c # cs)"
  using assms by (simp add: capitalize_def)

lemma upperChar_tsw:
  "upperChar CHR ''t'' = CHR ''T''" "upperChar CHR ''s'' = CHR ''S''" "upperChar CHR ''w'' = CHR ''W''"
  by code_simp+

lemma renderIndexEntry_lines:
  assumes "toLowerCase (camelCase env (JStr v3Type)) = v3Type"
    and "map_of dirMap v3Type = Some dir"
    and "v3Type = c # cs"
  shows "renderIndexEntry env v3Type (d, JStr key) =
     (indexImportLine env dir (upperChar c # cs) key, indexMappingLine env (upperChar c # cs) key)"
  using assms capitalize_noun [OF assms(1)]
  by (simp add: renderIndexEntry_def indexImportLine_def indexMappingLine_def indexVarName_def Let_def)

lemma renderIndexEntry_mapping:
  assumes "toLowerCase (camelCase env (JStr v3Type)) = v3Type"
    and "map_of dirMap v3Type = Some dir"
    and "v3Type = c # cs"
    and "plainMapping ps"
  shows "map (\<lambda>e. fst (renderIndexEntry env v3Type e)) (entries (JObj ps)) =
           map (indexImportLine env dir (upperChar c # cs)) (map fst ps)"
    and "map (\<lambda>e. snd (renderIndexEntry env v3Type e)) (entries (JObj ps)) =
           map (indexMappingLine env (upperChar c # cs)) (map fst ps)"
  using renderIndexEntry_lines [OF assms(1,2,3)]
  by (simp_all add: entries_mapping [OF assms(4)] case_prod_unfold)

lemma renderIndexContext_mappings:
  assumes "toLowerCase (camelCase env (JStr ''trigger'')) = ''trigger''"
    and "toLowerCase (camelCase env (JStr ''search'')) = ''search''"
    and "toLowerCase (camelCase env (JStr ''write'')) = ''write''"
    and "own aps ''triggers'' = JObj ts" and "plainMapping ts"
    and "own aps ''searches'' = JObj ss" and "plainMapping ss"
    and "own aps ''actions'' = JObj acts" and "plainMapping acts"
  shows "renderIndexContext env (JObj aps) =
     Inr [(''TRIGGERS'', JStr (join '',\<newline>'' (map (indexMappingLine env ''Trigger'') (map fst ts)))),
          (''SEARCHES'', JStr (join '',\<newline>'' (map (indexMappingLine env ''Search'') (map fst ss)))),
          (''WRITES'', JStr (join '',\<newline>'' (map (indexMappingLine env ''Write'') (map fst acts)))),
          (''REQUIRES'', JStr (join ''\<newline>''
             (map (indexImportLine env ''triggers'' ''Trigger'') (map fst ts)
              @ map (indexImportLine env ''searches'' ''Search'') (map fst ss)
              @ map (indexImportLine env ''writes'' ''Write'') (map fst acts))))]"
proof -
  have t: "map_of dirMap ''trigger'' = Some ''triggers''"
    and s: "map_of dirMap ''search'' = Some ''searches''"
    and w: "map_of dirMap ''write'' = Some ''writes''"
    by (simp_all add: dirMap_def)
  show ?thesis
    using renderIndexEntry_mapping [OF assms(1) t _ assms(5)]
      renderIndexEntry_mapping [OF assms(2) s _ assms(7)]
      renderIndexEntry_mapping [OF assms(3) w _ assms(9)]
    by (simp add: renderIndexContext_JObj assms(4,6,8) upperChar_tsw)
qed

lemma map_reordered:
  assumes "\<forall>i \<in> set idx. i < length xs"
  shows "map f (map fst (map ((!) xs) idx)) = map ((!) (map f (map fst xs))) idx"
  using assms by simp

text \<open>
  C6, as amended. For a definition whose three categories are mappings with no step
  key that is an array index, the index names the steps of each category in the
  insertion order of its mapping, the categories in the order triggers, searches,
  actions: the imports are those of the triggers, then of the searches, then of the
  actions, and each section lists its own category. The variable of a step is its
  camel-cased key followed by \<open>Trigger\<close>, \<open>Search\<close> or \<open>Write\<close>, given that
  \<open>camelCase\<close> changes at most the letter case of these three nouns. A definition
  with the triggers reordered (by the index list \<open>idx\<close>) gives the lines of the
  triggers reordered in the same way.
\<close>

theorem renderIndex_order:
  assumes "toLowerCase (camelCase env (JStr ''trigger'')) = ''trigger''"
    and "toLowerCase (camelCase env (JStr ''search'')) = ''search''"
    and "toLowerCase (camelCase env (JStr ''write'')) = ''write''"
    and "own aps ''triggers'' = JObj ts" and "plainMapping ts"
    and "own aps ''searches'' = JObj ss" and "plainMapping ss"
    and "own aps ''actions'' = JObj acts" and "plainMapping acts"
    and "own aps' ''triggers'' = JObj (map ((!) ts) idx)"
    and "\<forall>i \<in> set idx. i < length ts"
    and "plainMapping (map ((!) ts) idx)"
    and "own aps' ''searches'' = JObj ss" and "own aps' ''actions'' = JObj acts"
  shows "renderIndexContext env (JObj aps) =
     Inr [(''TRIGGERS'', JStr (join '',\<newline>'' (map (indexMappingLine env ''Trigger'') (map fst ts)))),
          (''SEARCHES'', JStr (join '',\<newline>'' (map (indexMappingLine env ''Search'') (map fst ss)))),
          (''WRITES'', JStr (join '',\<newline>'' (map (indexMappingLine env ''Write'') (map fst acts)))),
          (''REQUIRES'', JStr (join ''\<newline>''
             (map (indexImportLine env ''triggers'' ''Trigger'') (map fst ts)
              @ map (indexImportLine env ''searches'' ''Search'') (map fst ss)
              @ map (indexImportLine env ''writes'' ''Write'') (map fst acts))))]
   \<and> renderIndexContext env (JObj aps') =
     Inr [(''TRIGGERS'', JStr (join '',\<newline>''
             (map ((!) (map (indexMappingLine env ''Trigger'') (map fst ts))) idx))),
          (''SEARCHES'', JStr (join '',\<newline>'' (map (indexMappingLine env ''Search'') (map fst ss)))),
          (''WRITES'', JStr (join '',\<newline>'' (map (indexMappingLine env ''Write'') (map fst acts)))),
          (''REQUIRES'', JStr (join ''\<newline>''
             (map ((!) (map (indexImportLine env ''triggers'' ''Trigger'') (map fst ts))) idx
              @ map (indexImportLine env ''searches'' ''Search'') (map fst ss)
              @ map (indexImportLine env ''writes'' ''Write'') (map fst acts))))]"
proof -
  have 1: "renderIndexContext env (JObj aps) =
     Inr [(''TRIGGERS'', JStr (join '',\<newline>'' (map (indexMappingLine env ''Trigger'') (map fst ts)))),
          (''SEARCHES'', JStr (join '',\<newline>'' (map (indexMappingLine env ''Search'') (map fst ss)))),
          (''WRITES'', JStr (join '',\<newline>'' (map (indexMappingLine env ''Write'') (map fst acts)))),
          (''REQUIRES'', JStr (join ''\<newline>''
             (map (indexImportLine env ''triggers'' ''Trigger'') (map fst ts)
              @ map (indexImportLine env ''searches'' ''Search'') (map fst ss)
              @ map (indexImportLine env ''writes'' ''Write'') (map fst acts))))]"
    by (rule renderIndexContext_mappings [OF assms(1-9)])
  have 2: "renderIndexContext env (JObj aps') =
     Inr [(''TRIGGERS'', JStr (join '',\<newline>''
            (map (indexMappingLine env ''Trigger'') (map fst (map ((!) ts) idx))))),
          (''SEARCHES'', JStr (join '',\<newline>'' (map (indexMappingLine env ''Search'') (map fst ss)))),
          (''WRITES'', JStr (join '',\<newline>'' (map (indexMappingLine env ''Write'') (map fst acts)))),
          (''REQUIRES'', JStr (join ''\<newline>''
             (map (indexImportLine env ''triggers'' ''Trigger'') (map fst (map ((!) ts) idx))
              @ map (indexImportLine env ''searches'' ''Search'') (map fst ss)
              @ map (indexImportLine env ''writes'' ''Write'') (map fst acts))))]"
    by (rule renderIndexContext_mappings [OF assms(1-3) assms(10) assms(12) assms(13) assms(7) assms(14) assms(9)])
  show ?thesis
    using 1 2 by (simp only: map_reordered [OF assms(11)] simp_thms)
qed

theorem renderIndex_order_witness:
  "renderIndexContext (demoEnv demoTemplates)
     (JObj [(''triggers'', JObj [(''recipe'', JObj []), (''movie'', JObj [])]),
            (''searches'', JObj [(''find'', JObj [])]), (''actions'', JObj [])]) =
     Inr [(''TRIGGERS'', JStr ''[recipeTrigger.key]: recipeTrigger,,\<newline>[movieTrigger.key]: movieTrigger,''),
          (''SEARCHES'', JStr ''[findSearch.key]: findSearch,''),
          (''WRITES'', JStr []),
          (''REQUIRES'', JStr ''const recipeTrigger = require('./triggers/recipe');\<newline>const movieTrigger = require('./triggers/movie');\<newline>const findSearch = require('./searches/find');'')]
   \<and> renderIndexContext (demoEnv demoTemplates)
     (JObj [(''triggers'', JObj [(''movie'', JObj []), (''recipe'', JObj [])]),
            (''searches'', JObj [(''find'', JObj [])]), (''actions'', JObj [])]) =
     Inr [(''TRIGGERS'', JStr ''[movieTrigger.key]: movieTrigger,,\<newline>[recipeTrigger.key]: recipeTrigger,''),
          (''SEARCHES'', JStr ''[findSearch.key]: findSearch,''),
          (''WRITES'', JStr []),
          (''REQUIRES'', JStr ''const movieTrigger = require('./triggers/movie');\<newline>const recipeTrigger = require('./triggers/recipe');\<newline>const findSearch = require('./searches/find');'')]"
proof -
  have n: "toLowerCase (camelCase (demoEnv demoTemplates) (JStr ''trigger'')) = ''trigger''"
    "toLowerCase (camelCase (demoEnv demoTemplates) (JStr ''search'')) = ''search''"
    "toLowerCase (camelCase (demoEnv demoTemplates) (JStr ''write'')) = ''write''"
    by code_simp+
  have a: "plainMapping [(''recipe'', JObj []), (''movie'', JObj [])]"
    "plainMapping [(''find'', JObj [])]" "plainMapping []"
    "plainMapping (map ((!) [(''recipe'', JObj []), (''movie'', JObj [])]) [1, 0])"
    by code_simp+
  show ?thesis
    using renderIndex_order [of "demoEnv demoTemplates"
      "[(''triggers'', JObj [(''recipe'', JObj []), (''movie'', JObj [])]),
        (''searches'', JObj [(''find'', JObj [])]), (''actions'', JObj [])]"
      "[(''recipe'', JObj []), (''movie'', JObj [])]" "[(''find'', JObj [])]" "[]"
      "[(''triggers'', JObj [(''movie'', JObj []), (''recipe'', JObj [])]),
        (''searches'', JObj [(''find'', JObj [])]), (''actions'', JObj [])]"
      "[1, 0]", OF n _ a(1) _ a(2) _ a(3) _ _ a(4)]
    by (simp add: demoEnv_def own_def indexMappingLine_def indexImportLine_def indexVarName_def)
qed

text \<open>
  C6 as stated fails: a step key that is an array index is enumerated before the other
  keys, whatever the insertion order. With the triggers inserted as \<open>b\<close> then \<open>1\<close>, the
  index lists \<open>1\<close> first.
\<close>

theorem renderIndex_index_key_first:
  "renderIndexContext (demoEnv demoTemplates)
     (JObj [(''triggers'', JObj [(''b'', JObj []), (''1'', JObj [])])]) =
     Inr [(''TRIGGERS'', JStr ''[1Trigger.key]: 1Trigger,,\<newline>[bTrigger.key]: bTrigger,''),
          (''SEARCHES'', JStr []),
          (''WRITES'', JStr []),
          (''REQUIRES'', JStr ''const 1Trigger = require('./triggers/1');\<newline>const bTrigger = require('./triggers/b');'')]"
  by code_simp

section \<open>Conversion\<close>

lemma pushed_none: "pushed ms = (xs, None) \<Longrightarrow> ms = map Inr xs"
proof (induction ms arbitrary: xs)
  case Nil
  then show ?case by simp
next
  case (Cons m ms)
  then show ?case
    by (cases m) (auto split: prod.splits)
qed

lemma promiseAll_resolved:
  "(\<exists>us. promiseAll ps = Resolved us) \<longleftrightarrow> (\<forall>q \<in> set ps. \<exists>u. q = Resolved u)"
  by (induction ps) (auto split: promise.splits)

lemma promiseAll_rejected:
  "(\<exists>e. promiseAll ps = Rejected e) \<longleftrightarrow> (\<exists>q \<in> set ps. \<exists>e. q = Rejected e)"
  by (induction ps) (auto split: promise.splits)

lemma promiseAll_map_Resolved: "promiseAll ps = Resolved us \<Longrightarrow> ps = map Resolved us"
  by (induction ps arbitrary: us) (auto split: promise.splits)

lemma convertApp_returns:
  assumes "convertApp env legacyApp newAppDir w = (Inr p, w')"
  shows "\<exists>tasks settled. calls env legacyApp newAppDir = map Inr tasks
           \<and> runAll tasks w = (settled, w') \<and> p = promiseAll settled"
proof -
  obtain tasks thrown where t: "pushed (calls env legacyApp newAppDir) = (tasks, thrown)"
    by (cases "pushed (calls env legacyApp newAppDir)")
  obtain settled w1 where r: "runAll tasks w = (settled, w1)"
    by (cases "runAll tasks w")
  from assms t r have "thrown = None" "p = promiseAll settled" "w1 = w'"
    by (auto simp: convertApp_def split: option.splits)
  with t r show ?thesis
    using pushed_none by blast
qed

lemma runAll_length: "runAll tasks w = (settled, w') \<Longrightarrow> length settled = length tasks"
  by (induction tasks arbitrary: w settled) (auto split: prod.splits)

lemma runAll_member:
  "runAll tasks w = (settled, w') \<Longrightarrow> t \<in> set tasks \<Longrightarrow> \<exists>w1. fst (t w1) \<in> set settled"
proof (induction tasks arbitrary: w settled w')
  case Nil
  then show ?case by simp
next
  case (Cons a tasks)
  obtain q w1 where a: "a w = (q, w1)" by (cases "a w")
  obtain qs w2 where r: "runAll tasks w1 = (qs, w2)" by (cases "runAll tasks w1")
  from Cons.prems(1) a r have s: "settled = q # qs" by simp
  show ?case
  proof (cases "t = a")
    case True
    with a s have "fst (t w) \<in> set settled" by simp
    then show ?thesis ..
  next
    case False
    with Cons.prems(2) have "t \<in> set tasks" by simp
    from Cons.IH [OF r this] s show ?thesis by auto
  qed
qed

lemma bind_eq_Inr: "bind m f = Inr y \<longleftrightarrow> (\<exists>x. m = Inr x \<and> f x = Inr y)"
  by (cases m) simp_all

lemma renderStep_returns:
  assumes "renderStep env type definition key = Inr p"
  shows "\<exists>fs rendered sample noun lower.
           getProp definition ''fields'' = Inr fs
           \<and> collect (map (\<lambda>(d, k). renderField d k) (entries fs)) = Inr rendered
           \<and> p = renderTemplate env (pathJoin (TEMPLATE_DIR env) (''/'' @ type @ ''.template.js''))
                 [(''KEY'', JStr (snakeCase env key)),
                  (''CAMEL'', JStr (camelCase env key)),
                  (''NOUN'', JStr noun),
                  (''LOWER_NOUN'', JStr lower),
                  (''FIELDS'', JStr (join '',\<newline>'' rendered)),
                  (''SAMPLE'', JStr sample)]"
  using assms unfolding renderStep_def bind_eq_Inr Let_def newline_def
  by (elim exE conjE) (simp, blast)

lemma renderStep_template_missing:
  assumes "readFile env (pathJoin (TEMPLATE_DIR env) (''/'' @ type @ ''.template.js'')) = Inl e"
    and "renderStep env type definition key = Inr p"
  shows "p = Rejected e"
  using renderStep_returns [OF assms(2)] assms(1)
  by (auto simp: renderTemplate_def settle_def thenP_def)

lemma writeStep_returns:
  assumes "writeStep env type definition key newAppDir = Inr t"
  shows "\<exists>p. renderStep env type definition key = Inr p
           \<and> t = thenCreateFile env p
                 ((case map_of stepTypeMap type of Some d \<Rightarrow> d | None \<Rightarrow> ''undefined'')
                  @ ''/'' @ snakeCase env key @ ''.js'') newAppDir"
  using assms by (auto simp: writeStep_def Let_def bind_eq_Inr)

lemma writeStep_template_missing:
  assumes "readFile env (pathJoin (TEMPLATE_DIR env) (''/'' @ type @ ''.template.js'')) = Inl e"
    and "writeStep env type definition key newAppDir = Inr t"
  shows "t w = (Rejected e, w)"
proof -
  obtain p where p: "renderStep env type definition key = Inr p"
    and t: "t = thenCreateFile env p
                 ((case map_of stepTypeMap type of Some d \<Rightarrow> d | None \<Rightarrow> ''undefined'')
                  @ ''/'' @ snakeCase env key @ ''.js'') newAppDir"
    using writeStep_returns [OF assms(2)] by blast
  have "p = Rejected e"
    using renderStep_template_missing [OF assms(1) p] .
  then show ?thesis
    by (simp add: t thenCreateFile_def)
qed

lemma writeStep_in_calls:
  assumes "(v2Type, v3Type) \<in> set stepNamesMap" and "getProp legacyApp v2Type = Inr steps"
    and "(definition, key) \<in> set (entries steps)"
  shows "writeStep env v3Type definition key newAppDir \<in> set (calls env legacyApp newAppDir)"
proof -
  have "writeStep env v3Type definition key newAppDir
          \<in> set (stepCalls env legacyApp newAppDir (v2Type, v3Type))"
    using assms(2,3) by (force simp: stepCalls_def)
  then show ?thesis
    using assms(1) by (auto simp: calls_def)
qed

text \<open>
  C8, as amended. When \<open>convertApp\<close> returns its promise, that is when no call of
  \<open>writeStep\<close>, \<open>writeIndex\<close> or \<open>writePackageJson\<close> throws while the tasks are
  being scheduled, every call has given a task (one for each step, one for the index,
  one for the manifest) and the promise is that of \<open>Promise.all\<close> over what these
  tasks settle to: it is resolved exactly when every task is resolved and rejected
  exactly when some task is rejected, nothing catching a rejection on the way. In
  particular, when the template of the category of any step cannot be read, the promise
  is rejected.
\<close>

theorem convertApp_all_or_reject:
  assumes "convertApp env legacyApp newAppDir w = (Inr p, w')"
  shows "\<exists>tasks settled.
      calls env legacyApp newAppDir = map Inr tasks
      \<and> runAll tasks w = (settled, w') \<and> length settled = length tasks
      \<and> ((\<exists>us. p = Resolved us) \<longleftrightarrow> (\<forall>q \<in> set settled. \<exists>u. q = Resolved u))
      \<and> ((\<exists>e. p = Rejected e) \<longleftrightarrow> (\<exists>q \<in> set settled. \<exists>e. q = Rejected e))
      \<and> (\<forall>v2Type v3Type steps definition key e.
            (v2Type, v3Type) \<in> set stepNamesMap \<and> getProp legacyApp v2Type = Inr steps
            \<and> (definition, key) \<in> set (entries steps)
            \<and> readFile env (pathJoin (TEMPLATE_DIR env) (''/'' @ v3Type @ ''.template.js'')) = Inl e
            \<longrightarrow> (\<exists>e'. p = Rejected e'))"
proof -
  obtain tasks settled where c: "calls env legacyApp newAppDir = map Inr tasks"
    and r: "runAll tasks w = (settled, w')" and p: "p = promiseAll settled"
    using convertApp_returns [OF assms] by blast
  have "\<exists>e'. p = Rejected e'"
    if "(v2Type, v3Type) \<in> set stepNamesMap" and "getProp legacyApp v2Type = Inr steps"
      and "(d, k) \<in> set (entries steps)"
      and m: "readFile env (pathJoin (TEMPLATE_DIR env) (''/'' @ v3Type @ ''.template.js'')) = Inl e"
    for v2Type v3Type steps d k e
  proof -
    have "writeStep env v3Type d k newAppDir \<in> set (map Inr tasks)"
      using writeStep_in_calls [OF that(1,2,3), of env newAppDir] unfolding c .
    then obtain t where t: "t \<in> set tasks" "writeStep env v3Type d k newAppDir = Inr t"
      by auto
    obtain w1 where "fst (t w1) \<in> set settled"
      using runAll_member [OF r t(1)] by blast
    then have "Rejected e \<in> set settled"
      using writeStep_template_missing [OF m t(2)] by simp
    then show ?thesis
      using p promiseAll_rejected [of settled] by blast
  qed
  then have particular: "\<forall>v2Type v3Type steps d k e.
            (v2Type, v3Type) \<in> set stepNamesMap \<and> getProp legacyApp v2Type = Inr steps
            \<and> (d, k) \<in> set (entries steps)
            \<and> readFile env (pathJoin (TEMPLATE_DIR env) (''/'' @ v3Type @ ''.template.js'')) = Inl e
            \<longrightarrow> (\<exists>e'. p = Rejected e')"
    by blast
  have res: "(\<exists>us. p = Resolved us) \<longleftrightarrow> (\<forall>q \<in> set settled. \<exists>u. q = Resolved u)"
    unfolding p by (rule promiseAll_resolved)
  have rej: "(\<exists>e. p = Rejected e) \<longleftrightarrow> (\<exists>q \<in> set settled. \<exists>e. q = Rejected e)"
    unfolding p by (rule promiseAll_rejected)
  from c r runAll_length [OF r] res rej particular show ?thesis
    by (intro exI [of _ tasks] exI [of _ settled] conjI)
qed

text \<open>
  C8 as stated fails: a conversion with a failing task need not reject. With the
  trigger template unreadable and, in the action, a field whose \<open>type\<close> is the number
  42, the task of the trigger is scheduled and will fail, but \<open>renderField\<close> throws a
  \<open>TypeError\<close> inside \<open>writeStep\<close> for the action, so \<open>convertApp\<close> throws before it
  reaches \<open>Promise.all\<close>: it returns no promise, and nothing is rejected.
\<close>

theorem convertApp_throws_before_all:
  "readFile (demoEnv (tl demoTemplates))
     (pathJoin (TEMPLATE_DIR (demoEnv (tl demoTemplates))) ''/trigger.template.js'') = Inl (IOError ''ENOENT'')
   \<and> fst (convertApp (demoEnv (tl demoTemplates)) demoFaultyApp ''out'' demoWorld) = Inl TypeError"
  by code_simp

lemma createFile_resolved:
  assumes "createFile env content fileName dir w = (Resolved u, w1)"
  shows "files w1 = (files w)(pathJoin dir fileName \<mapsto> content)"
  using assms
  by (auto simp: createFile_def ensureDir_def writeFile_def printStarting_def printDone_def Let_def
      split: option.splits)

lemma thenCreateFile_resolved:
  assumes "thenCreateFile env p fileName dir w = (Resolved u, w1)"
  shows "\<exists>content. p = Resolved content \<and> files w1 = (files w)(pathJoin dir fileName \<mapsto> content)"
  using assms createFile_resolved
  by (cases p) (auto simp: thenCreateFile_def)

lemma renderTemplate_resolved:
  assumes "renderTemplate env templateFile c = Resolved out"
  shows "\<exists>text. readFile env templateFile = Inr text \<and> lodashTemplate env text c = Inr out"
  using assms
  by (auto simp: renderTemplate_def settle_def thenP_def split: sum.splits)

lemma collect_map_member:
  "collect (map f xs) = Inr ys \<Longrightarrow> x \<in> set xs \<Longrightarrow> f x = Inr y \<Longrightarrow> y \<in> set ys"
  by (induction xs arbitrary: ys) (auto simp: bind_eq_Inr)

lemma sublist_join: "y \<in> set ys \<Longrightarrow> sublist y (join sep ys)"
proof (induction sep ys rule: join.induct)
  case (1 sep)
  then show ?case by simp
next
  case (2 sep x)
  then show ?case by simp
next
  case (3 sep x z zs)
  show ?case
  proof (cases "y = x")
    case True
    then show ?thesis by (simp add: sublist_append_rightI)
  next
    case False
    with 3 have "sublist y (join sep (z # zs))" by simp
    moreover have "sublist (join sep (z # zs)) ((x @ sep) @ join sep (z # zs))"
      by (rule sublist_append_leftI)
    ultimately have "sublist y ((x @ sep) @ join sep (z # zs))"
      by (rule sublist_order.order_trans)
    then show ?thesis by simp
  qed
qed

lemma writeStep_resolved:
  assumes "writeStep env type definition key newAppDir = Inr t"
    and "t w = (Resolved u, w1)"
    and "usesFields env type"
  shows "\<exists>content.
      files w1 = (files w)(pathJoin newAppDir
         ((case map_of stepTypeMap type of Some d \<Rightarrow> d | None \<Rightarrow> ''undefined'')
          @ ''/'' @ snakeCase env key @ ''.js'') \<mapsto> content)
      \<and> (\<forall>fs d k frag. getProp definition ''fields'' = Inr fs \<and> (d, k) \<in> set (entries fs)
             \<and> renderField d k = Inr frag \<longrightarrow> sublist frag content)"
proof -
  obtain p where p: "renderStep env type definition key = Inr p"
    and t: "t = thenCreateFile env p
                 ((case map_of stepTypeMap type of Some d \<Rightarrow> d | None \<Rightarrow> ''undefined'')
                  @ ''/'' @ snakeCase env key @ ''.js'') newAppDir"
    using writeStep_returns [OF assms(1)] by blast
  obtain content where c: "p = Resolved content"
    and f: "files w1 = (files w)(pathJoin newAppDir
         ((case map_of stepTypeMap type of Some d \<Rightarrow> d | None \<Rightarrow> ''undefined'')
          @ ''/'' @ snakeCase env key @ ''.js'') \<mapsto> content)"
    using thenCreateFile_resolved assms(2) unfolding t by blast
  obtain fs rendered sample noun lower where fs: "getProp definition ''fields'' = Inr fs"
    and r: "collect (map (\<lambda>(d, k). renderField d k) (entries fs)) = Inr rendered"
    and rt: "p = renderTemplate env (pathJoin (TEMPLATE_DIR env) (''/'' @ type @ ''.template.js''))
                 [(''KEY'', JStr (snakeCase env key)),
                  (''CAMEL'', JStr (camelCase env key)),
                  (''NOUN'', JStr noun),
                  (''LOWER_NOUN'', JStr lower),
                  (''FIELDS'', JStr (join '',\<newline>'' rendered)),
                  (''SAMPLE'', JStr sample)]"
    using renderStep_returns [OF p] by blast
  obtain tpl where "readFile env (pathJoin (TEMPLATE_DIR env) (''/'' @ type @ ''.template.js'')) = Inr tpl"
    and "lodashTemplate env tpl
           [(''KEY'', JStr (snakeCase env key)),
            (''CAMEL'', JStr (camelCase env key)),
            (''NOUN'', JStr noun),
            (''LOWER_NOUN'', JStr lower),
            (''FIELDS'', JStr (join '',\<newline>'' rendered)),
            (''SAMPLE'', JStr sample)] = Inr content"
    using renderTemplate_resolved rt c by metis
  then have j: "sublist (join '',\<newline>'' rendered) content"
    using assms(3) unfolding usesFields_def by fastforce
  have "sublist frag content"
    if "getProp definition ''fields'' = Inr fs'" and "(d, k) \<in> set (entries fs')"
      and "renderField d k = Inr frag" for fs' d k frag
  proof -
    from that(1) fs have "fs' = fs" by simp
    with that(2,3) r have "frag \<in> set rendered"
      using collect_map_member [of "\<lambda>(d, k). renderField d k" "entries fs" rendered "(d, k)" frag]
      by simp
    then have "sublist frag (join '',\<newline>'' rendered)"
      by (rule sublist_join)
    with j show ?thesis
      using sublist_order.order_trans by blast
  qed
  with f show ?thesis by blast
qed

lemma writeIndex_returns:
  assumes "writeIndex env legacyApp newAppDir = Inr t"
  shows "\<exists>p. t = thenCreateFile env p ''index.js'' newAppDir"
  using assms by (auto simp: writeIndex_def bind_eq_Inr)

lemma writePackageJson_returns:
  assumes "writePackageJson env legacyApp newAppDir = Inr t"
  shows "\<exists>p. t = thenCreateFile env p ''package.json'' newAppDir"
  using assms by (auto simp: writePackageJson_def bind_eq_Inr)

lemma runAll_resolved_Cons:
  assumes "runAll (t # ts) w = (map Resolved us, w')"
  shows "\<exists>u us' w1. t w = (Resolved u, w1) \<and> runAll ts w1 = (map Resolved us', w')"
proof -
  obtain q w1 where q: "t w = (q, w1)" by (cases "t w")
  obtain qs w2 where r: "runAll ts w1 = (qs, w2)" by (cases "runAll ts w1")
  from assms q r have "map Resolved us = q # qs" "w2 = w'" by simp_all
  then obtain u us' where "q = Resolved u" "qs = map Resolved us'"
    by (cases us) auto
  with q r \<open>w2 = w'\<close> show ?thesis by blast
qed

lemma calls_one_each:
  assumes "own aps ''triggers'' = JObj [(k1, d1)]" and "\<not> isArrayLike (JObj [(k1, d1)])"
    and "own aps ''searches'' = JObj [(k2, d2)]" and "\<not> isArrayLike (JObj [(k2, d2)])"
    and "own aps ''actions'' = JObj [(k3, d3)]" and "\<not> isArrayLike (JObj [(k3, d3)])"
  shows "calls env (JObj aps) newAppDir =
     [writeStep env ''trigger'' d1 (JStr k1) newAppDir,
      writeStep env ''search'' d2 (JStr k2) newAppDir,
      writeStep env ''write'' d3 (JStr k3) newAppDir,
      writeIndex env (JObj aps) newAppDir,
      writePackageJson env (JObj aps) newAppDir]"
  using assms(1,3,5) entries_single [OF assms(2)] entries_single [OF assms(4)]
    entries_single [OF assms(6)]
  by (simp add: calls_def stepCalls_def stepNamesMap_def)

lemma segments_nonempty: "segments s \<noteq> []"
  by (induction s) (auto split: list.splits)

lemma segments_append: "segments (a @ CHR ''/'' # b) = segments a @ segments b"
proof (induction a)
  case Nil
  show ?case by simp
next
  case (Cons c a)
  obtain s ss where "segments a = s # ss"
    using segments_nonempty [of a] by (cases "segments a") auto
  with Cons show ?case by simp
qed

lemma segments_plain: "CHR ''/'' \<notin> set s \<Longrightarrow> segments s = [s]"
  by (induction s) auto

lemma segments_join:
  "ys \<noteq> [] \<Longrightarrow> \<forall>s \<in> set ys. CHR ''/'' \<notin> set s \<Longrightarrow> segments (join ''/'' ys) = ys"
proof (induction ys)
  case Nil
  then show ?case by simp
next
  case (Cons x ys)
  show ?case
  proof (cases ys)
    case Nil
    with Cons.prems show ?thesis by (simp add: segments_plain)
  next
    case (Cons y zs)
    have "segments (x @ CHR ''/'' # join ''/'' ys) = segments x @ segments (join ''/'' ys)"
      by (rule segments_append)
    with Cons Cons.prems Cons.IH show ?thesis by (simp add: segments_plain)
  qed
qed

lemma normalizeString_push:
  "\<forall>s \<in> set ys. s \<noteq> [] \<and> s \<noteq> ''.'' \<and> s \<noteq> ''..'' \<Longrightarrow> normalizeString a res ys = rev res @ ys"
  by (induction ys arbitrary: res) auto

lemma normalizeString_append:
  "\<forall>s \<in> set ys. s \<noteq> [] \<and> s \<noteq> ''.'' \<and> s \<noteq> ''..'' \<Longrightarrow>
   normalizeString a res (xs @ ys) = normalizeString a res xs @ ys"
proof (induction xs arbitrary: res)
  case Nil
  then show ?case by (simp add: normalizeString_push)
next
  case (Cons x xs)
  then show ?case by (auto split: list.splits)
qed

lemma join_append:
  "ys \<noteq> [] \<Longrightarrow> join sep (xs @ ys) = (if xs = [] then [] else join sep xs @ sep) @ join sep ys"
proof (induction xs)
  case Nil
  then show ?case by simp
next
  case (Cons x xs)
  then show ?case by (cases xs; cases ys) auto
qed

lemma join_nonempty: "ys \<noteq> [] \<Longrightarrow> last ys \<noteq> [] \<Longrightarrow> join sep ys \<noteq> []"
proof (induction ys)
  case Nil
  then show ?case by simp
next
  case (Cons y ys)
  then show ?case by (cases ys) auto
qed

lemma join_last: "ys \<noteq> [] \<Longrightarrow> last ys \<noteq> [] \<Longrightarrow> last (join sep ys) = last (last ys)"
proof (induction ys)
  case Nil
  then show ?case by simp
next
  case (Cons y ys)
  show ?case
  proof (cases ys)
    case Nil
    then show ?thesis by simp
  next
    case (Cons z zs)
    have "join sep ys \<noteq> []" using Cons Cons.prems join_nonempty [of ys sep] by simp
    with Cons Cons.prems Cons.IH show ?thesis by simp
  qed
qed

lemma join_hd: "ys \<noteq> [] \<Longrightarrow> hd ys \<noteq> [] \<Longrightarrow> hd (join sep ys) = hd (hd ys)"
  by (cases ys; cases "tl ys") auto

lemma pathJoin_prefix:
  "\<exists>pre. \<forall>ys. ys \<noteq> [] \<and> (\<forall>s \<in> set ys. s \<noteq> [] \<and> s \<noteq> ''.'' \<and> s \<noteq> ''..'' \<and> CHR ''/'' \<notin> set s)
       \<longrightarrow> pathJoin dir (join ''/'' ys) = pre @ join ''/'' ys"
proof (cases "dir = []")
  case True
  have "pathJoin dir (join ''/'' ys) = [] @ join ''/'' ys"
    if ne: "ys \<noteq> []" and o: "\<forall>s \<in> set ys. s \<noteq> [] \<and> s \<noteq> ''.'' \<and> s \<noteq> ''..'' \<and> CHR ''/'' \<notin> set s" for ys
  proof -
    let ?n = "join ''/'' ys"
    have l: "last ys \<noteq> []" and h: "hd ys \<noteq> []" using ne o by auto
    have n: "?n \<noteq> []" using ne l by (rule join_nonempty)
    have la: "last ?n \<noteq> CHR ''/''"
      using join_last [OF ne l, of "''/''"] ne o l by (metis last_in_set)
    have hn: "hd ?n \<noteq> CHR ''/''"
      using join_hd [OF ne h, of "''/''"] ne o h by (metis hd_in_set)
    have sg: "segments ?n = ys" using ne o by (simp add: segments_join)
    have ns: "normalizeString True [] ys = ys" using o by (simp add: normalizeString_push)
    show ?thesis using True n la hn sg ns by (simp add: pathJoin_def normalizePath_def Let_def)
  qed
  then show ?thesis by blast
next
  case False
  define isAbsolute where "isAbsolute = (hd dir = CHR ''/'')"
  define A where "A = normalizeString (\<not> isAbsolute) [] (segments dir)"
  define pre where "pre = (if isAbsolute then ''/'' else []) @ (if A = [] then [] else join ''/'' A @ ''/'')"
  have "pathJoin dir (join ''/'' ys) = pre @ join ''/'' ys"
    if ne: "ys \<noteq> []" and o: "\<forall>s \<in> set ys. s \<noteq> [] \<and> s \<noteq> ''.'' \<and> s \<noteq> ''..'' \<and> CHR ''/'' \<notin> set s" for ys
  proof -
    let ?n = "join ''/'' ys"
    let ?j = "dir @ CHR ''/'' # ?n"
    have l: "last ys \<noteq> []" using ne o by auto
    have n: "?n \<noteq> []" using ne l by (rule join_nonempty)
    have la: "last ?j \<noteq> CHR ''/''"
      using join_last [OF ne l, of "''/''"] ne o l n by (metis last_in_set last_appendR last_ConsR list.distinct(1))
    have hj: "hd ?j = hd dir" using False by simp
    have sg: "segments ?j = segments dir @ ys"
      using ne o by (simp add: segments_append segments_join)
    have ns: "normalizeString (\<not> isAbsolute) [] (segments ?j) = A @ ys"
      unfolding sg A_def using o by (simp add: normalizeString_append)
    have p1: "join ''/'' (A @ ys) = (if A = [] then [] else join ''/'' A @ ''/'') @ ?n"
      using ne by (rule join_append)
    have jn: "join ''/'' [dir, ?n] = ?j" by simp
    have j: "?j \<noteq> []" by simp
    have "normalizePath ?j = pre @ ?n"
    proof (cases isAbsolute)
      case True
      with ns have "normalizeString False [] (segments ?j) = A @ ys" by simp
      with True la hj n p1 j show ?thesis
        unfolding normalizePath_def Let_def pre_def isAbsolute_def by (simp del: segments.simps)
    next
      case False
      with ns have "normalizeString True [] (segments ?j) = A @ ys" by simp
      with False la hj n p1 j show ?thesis
        unfolding normalizePath_def Let_def pre_def isAbsolute_def by (simp del: segments.simps)
    qed
    then show ?thesis using False n by (simp add: pathJoin_def Let_def)
  qed
  then show ?thesis by blast
qed

text \<open>A root with a trailing separator is normalised, and a name with a \<open>..\<close> segment
  leaves its directory: this is why the keys of the step files are required to be single
  segments below.\<close>

lemma pathJoin_normalises:
  "pathJoin ''out/'' ''index.js'' = ''out/index.js''"
  "pathJoin ''out'' ''triggers/../index.js'' = ''out/index.js''"
  "dirname ''out/triggers/recipe.js'' = ''out/triggers''"
  by code_simp+

lemma pathJoin_distinct:
  assumes "CHR ''/'' \<notin> set a" and "CHR ''/'' \<notin> set b" and "CHR ''/'' \<notin> set c"
  shows "distinct [pathJoin dir (''triggers/'' @ a @ ''.js''), pathJoin dir (''searches/'' @ b @ ''.js''),
                   pathJoin dir (''writes/'' @ c @ ''.js''), pathJoin dir ''index.js'', pathJoin dir ''package.json'']"
proof -
  obtain pre where p: "\<And>ys. ys \<noteq> [] \<Longrightarrow> \<forall>s \<in> set ys. s \<noteq> [] \<and> s \<noteq> ''.'' \<and> s \<noteq> ''..'' \<and> CHR ''/'' \<notin> set s
       \<Longrightarrow> pathJoin dir (join ''/'' ys) = pre @ join ''/'' ys"
    using pathJoin_prefix [of dir] by blast
  have js: "k @ ''.js'' \<noteq> ''.''" "k @ ''.js'' \<noteq> ''..''" for k :: string
    by (cases k; simp)+
  have 1: "pathJoin dir (''triggers/'' @ a @ ''.js'') = pre @ ''triggers/'' @ a @ ''.js''"
    using p [of "[''triggers'', a @ ''.js'']"] assms(1) js by simp
  have 2: "pathJoin dir (''searches/'' @ b @ ''.js'') = pre @ ''searches/'' @ b @ ''.js''"
    using p [of "[''searches'', b @ ''.js'']"] assms(2) js by simp
  have 3: "pathJoin dir (''writes/'' @ c @ ''.js'') = pre @ ''writes/'' @ c @ ''.js''"
    using p [of "[''writes'', c @ ''.js'']"] assms(3) js by simp
  have 4: "pathJoin dir ''index.js'' = pre @ ''index.js''"
    using p [of "[''index.js'']"] by simp
  have 5: "pathJoin dir ''package.json'' = pre @ ''package.json''"
    using p [of "[''package.json'']"] by simp
  show ?thesis unfolding 1 2 3 4 5 by simp
qed

text \<open>
  C7. For a definition with exactly one trigger, one search and one action, a conversion
  that resolves has written five files under the output root and no other:
  \<open>triggers/<key>.js\<close>, \<open>searches/<key>.js\<close>, \<open>writes/<key>.js\<close> with the
  snake-cased keys, \<open>index.js\<close> and \<open>package.json\<close>, each at the path that
  \<open>path.join\<close> gives it under the root, whatever the root is. A snake-cased key is a
  single path segment: it holds no separator, as is the case of every result of the
  \<open>snakeCase\<close> of lodash, which joins words with underscores. The five paths are then
  distinct. Given that the three step templates put \<open>FIELDS\<close> into their output, the
  content of each step file contains every rendered field fragment of its step.
\<close>

theorem convertApp_five_files:
  assumes "own aps ''triggers'' = JObj [(k1, d1)]" and "\<not> isArrayLike (JObj [(k1, d1)])"
    and "own aps ''searches'' = JObj [(k2, d2)]" and "\<not> isArrayLike (JObj [(k2, d2)])"
    and "own aps ''actions'' = JObj [(k3, d3)]" and "\<not> isArrayLike (JObj [(k3, d3)])"
    and "usesFields env ''trigger''" and "usesFields env ''search''" and "usesFields env ''write''"
    and "convertApp env (JObj aps) newAppDir w = (Inr (Resolved us), w')"
    and "CHR ''/'' \<notin> set (snakeCase env (JStr k1))"
    and "CHR ''/'' \<notin> set (snakeCase env (JStr k2))"
    and "CHR ''/'' \<notin> set (snakeCase env (JStr k3))"
  shows "\<exists>c1 c2 c3 c4 c5.
      files w' = (files w)
        (pathJoin newAppDir (''triggers/'' @ snakeCase env (JStr k1) @ ''.js'') \<mapsto> c1,
         pathJoin newAppDir (''searches/'' @ snakeCase env (JStr k2) @ ''.js'') \<mapsto> c2,
         pathJoin newAppDir (''writes/'' @ snakeCase env (JStr k3) @ ''.js'') \<mapsto> c3,
         pathJoin newAppDir ''index.js'' \<mapsto> c4,
         pathJoin newAppDir ''package.json'' \<mapsto> c5)
      \<and> distinct
        [pathJoin newAppDir (''triggers/'' @ snakeCase env (JStr k1) @ ''.js''),
         pathJoin newAppDir (''searches/'' @ snakeCase env (JStr k2) @ ''.js''),
         pathJoin newAppDir (''writes/'' @ snakeCase env (JStr k3) @ ''.js''),
         pathJoin newAppDir ''index.js'',
         pathJoin newAppDir ''package.json'']
      \<and> (\<forall>fs d k frag. getProp d1 ''fields'' = Inr fs \<and> (d, k) \<in> set (entries fs)
             \<and> renderField d k = Inr frag \<longrightarrow> sublist frag c1)
      \<and> (\<forall>fs d k frag. getProp d2 ''fields'' = Inr fs \<and> (d, k) \<in> set (entries fs)
             \<and> renderField d k = Inr frag \<longrightarrow> sublist frag c2)
      \<and> (\<forall>fs d k frag. getProp d3 ''fields'' = Inr fs \<and> (d, k) \<in> set (entries fs)
             \<and> renderField d k = Inr frag \<longrightarrow> sublist frag c3)"
proof -
  obtain tasks settled where c: "calls env (JObj aps) newAppDir = map Inr tasks"
    and r: "runAll tasks w = (settled, w')" and p: "Resolved us = promiseAll settled"
    using convertApp_returns [OF assms(10)] by blast
  from p have s: "settled = map Resolved us"
    using promiseAll_map_Resolved [of settled us] by simp
  from c obtain t1 t2 t3 t4 t5 where tasks: "tasks = [t1, t2, t3, t4, t5]"
    and t1: "writeStep env ''trigger'' d1 (JStr k1) newAppDir = Inr t1"
    and t2: "writeStep env ''search'' d2 (JStr k2) newAppDir = Inr t2"
    and t3: "writeStep env ''write'' d3 (JStr k3) newAppDir = Inr t3"
    and t4: "writeIndex env (JObj aps) newAppDir = Inr t4"
    and t5: "writePackageJson env (JObj aps) newAppDir = Inr t5"
    unfolding calls_one_each [OF assms(1-6)] by (auto simp: Cons_eq_map_conv)
  from r s tasks have r1: "runAll [t1, t2, t3, t4, t5] w = (map Resolved us, w')" by simp
  obtain u1 us1 w1 where a1: "t1 w = (Resolved u1, w1)"
    and r2: "runAll [t2, t3, t4, t5] w1 = (map Resolved us1, w')"
    using runAll_resolved_Cons [OF r1] by blast
  obtain u2 us2 w2 where a2: "t2 w1 = (Resolved u2, w2)"
    and r3: "runAll [t3, t4, t5] w2 = (map Resolved us2, w')"
    using runAll_resolved_Cons [OF r2] by blast
  obtain u3 us3 w3 where a3: "t3 w2 = (Resolved u3, w3)"
    and r4: "runAll [t4, t5] w3 = (map Resolved us3, w')"
    using runAll_resolved_Cons [OF r3] by blast
  obtain u4 us4 w4 where a4: "t4 w3 = (Resolved u4, w4)"
    and r5: "runAll [t5] w4 = (map Resolved us4, w')"
    using runAll_resolved_Cons [OF r4] by blast
  obtain u5 us5 w5 where a5: "t5 w4 = (Resolved u5, w5)"
    and r6: "runAll [] w5 = (map Resolved us5, w')"
    using runAll_resolved_Cons [OF r5] by blast
  from r6 have w5: "w5 = w'" by simp
  obtain c1 where f1: "files w1 = (files w)
        (pathJoin newAppDir (''triggers/'' @ snakeCase env (JStr k1) @ ''.js'') \<mapsto> c1)"
    and g1: "\<forall>fs d k frag. getProp d1 ''fields'' = Inr fs \<and> (d, k) \<in> set (entries fs)
             \<and> renderField d k = Inr frag \<longrightarrow> sublist frag c1"
    using writeStep_resolved [OF t1 a1 assms(7)] by (auto simp: stepTypeMap_def)
  obtain c2 where f2: "files w2 = (files w1)
        (pathJoin newAppDir (''searches/'' @ snakeCase env (JStr k2) @ ''.js'') \<mapsto> c2)"
    and g2: "\<forall>fs d k frag. getProp d2 ''fields'' = Inr fs \<and> (d, k) \<in> set (entries fs)
             \<and> renderField d k = Inr frag \<longrightarrow> sublist frag c2"
    using writeStep_resolved [OF t2 a2 assms(8)] by (auto simp: stepTypeMap_def)
  obtain c3 where f3: "files w3 = (files w2)
        (pathJoin newAppDir (''writes/'' @ snakeCase env (JStr k3) @ ''.js'') \<mapsto> c3)"
    and g3: "\<forall>fs d k frag. getProp d3 ''fields'' = Inr fs \<and> (d, k) \<in> set (entries fs)
             \<and> renderField d k = Inr frag \<longrightarrow> sublist frag c3"
    using writeStep_resolved [OF t3 a3 assms(9)] by (auto simp: stepTypeMap_def)
  obtain c4 where f4: "files w4 = (files w3)(pathJoin newAppDir ''index.js'' \<mapsto> c4)"
    using writeIndex_returns [OF t4] thenCreateFile_resolved a4 by metis
  obtain c5 where f5: "files w' = (files w4)(pathJoin newAppDir ''package.json'' \<mapsto> c5)"
    using writePackageJson_returns [OF t5] thenCreateFile_resolved a5 w5 by metis
  have "files w' = (files w)
        (pathJoin newAppDir (''triggers/'' @ snakeCase env (JStr k1) @ ''.js'') \<mapsto> c1,
         pathJoin newAppDir (''searches/'' @ snakeCase env (JStr k2) @ ''.js'') \<mapsto> c2,
         pathJoin newAppDir (''writes/'' @ snakeCase env (JStr k3) @ ''.js'') \<mapsto> c3,
         pathJoin newAppDir ''index.js'' \<mapsto> c4,
         pathJoin newAppDir ''package.json'' \<mapsto> c5)"
    by (simp only: f5 f4 f3 f2 f1)
  moreover note pathJoin_distinct [OF assms(11-13), of newAppDir]
  ultimately show ?thesis
    using g1 g2 g3 by (intro exI [of _ c1] exI [of _ c2] exI [of _ c3] exI [of _ c4] exI [of _ c5] conjI)
qed

lemma interp_demoStepTemplate:
  assumes "interp c None demoStepTemplate = Inr out" and "map_of c ''FIELDS'' = Some (JStr v)"
  shows "sublist v out"
proof -
  obtain a b where
    "out = (''// '' @ a @ ''\<newline>inputFields: [\<newline>'') @ v @ (''\<newline>],\<newline>'' @ b)"
    using assms unfolding demoStepTemplate_def
    by (auto simp: bind_eq_Inr trim_def split: option.splits)
  then show ?thesis
    by (simp only: sublist_appendI)
qed

lemma demo_template_paths:
  "pathJoin ''/tpl'' ''/trigger.template.js'' = ''/tpl/trigger.template.js''"
  "pathJoin ''/tpl'' ''/search.template.js'' = ''/tpl/search.template.js''"
  "pathJoin ''/tpl'' ''/write.template.js'' = ''/tpl/write.template.js''"
  by code_simp+

lemma demo_file_paths:
  "pathJoin ''out'' ''triggers/recipe.js'' = ''out/triggers/recipe.js''"
  "pathJoin ''out'' ''searches/find.js'' = ''out/searches/find.js''"
  "pathJoin ''out'' ''writes/make.js'' = ''out/writes/make.js''"
  "pathJoin ''out'' ''index.js'' = ''out/index.js''"
  "pathJoin ''out'' ''package.json'' = ''out/package.json''"
  by code_simp+

lemma demo_usesFields:
  assumes "type = ''trigger'' \<or> type = ''search'' \<or> type = ''write''"
  shows "usesFields (demoEnv demoTemplates) type"
  unfolding usesFields_def
proof (intro allI impI, elim conjE)
  fix tpl c out v
  assume "readFile (demoEnv demoTemplates)
            (pathJoin (TEMPLATE_DIR (demoEnv demoTemplates)) (''/'' @ type @ ''.template.js'')) = Inr tpl"
  then have "tpl = demoStepTemplate"
    using assms by (auto simp: demoEnv_def demoTemplates_def demo_template_paths)
  moreover assume "lodashTemplate (demoEnv demoTemplates) tpl c = Inr out"
  ultimately have "interp c None demoStepTemplate = Inr out"
    by (simp add: demoEnv_def interpolate_def)
  moreover assume "map_of c ''FIELDS'' = Some (JStr v)"
  ultimately show "sublist v out"
    by (rule interp_demoStepTemplate)
qed

lemma demo_resolved:
  "fst (convertApp (demoEnv demoTemplates) demoApp ''out'' demoWorld) = Inr (Resolved [(), (), (), (), ()])"
  by code_simp

lemma demo_rejected:
  "fst (convertApp (demoEnv (tl demoTemplates)) demoApp ''out'' demoWorld) = Inr (Rejected (IOError ''ENOENT''))"
  by code_simp

lemma fst_eqD: "fst x = a \<Longrightarrow> x = (a, snd x)"
  by auto

theorem convertApp_all_or_reject_witness:
  "fst (convertApp (demoEnv demoTemplates) demoApp ''out'' demoWorld) = Inr (Resolved [(), (), (), (), ()])
   \<and> readFile (demoEnv (tl demoTemplates)) ''/tpl/trigger.template.js'' = Inl (IOError ''ENOENT'')
   \<and> (\<exists>e. fst (convertApp (demoEnv (tl demoTemplates)) demoApp ''out'' demoWorld) = Inr (Rejected e))"
proof -
  have b: "convertApp (demoEnv (tl demoTemplates)) demoApp ''out'' demoWorld =
             (Inr (Rejected (IOError ''ENOENT'')),
              snd (convertApp (demoEnv (tl demoTemplates)) demoApp ''out'' demoWorld))"
    using demo_rejected by (rule fst_eqD)
  have m: "readFile (demoEnv (tl demoTemplates))
             (pathJoin (TEMPLATE_DIR (demoEnv (tl demoTemplates))) (''/'' @ ''trigger'' @ ''.template.js''))
           = Inl (IOError ''ENOENT'')"
    by (simp add: demoEnv_def demoTemplates_def demo_template_paths)
  have s: "(''triggers'', ''trigger'') \<in> set stepNamesMap"
    by (simp add: stepNamesMap_def)
  have g: "getProp demoApp ''triggers'' =
             Inr (JObj [(''recipe'', JObj [(''fields'',
               JObj [(''style'', JObj [(''type'', JStr ''Unicode''), (''label'', JStr ''Style'')])])])])"
    by (simp add: demoApp_def own_def)
  have e: "(JObj [(''fields'',
               JObj [(''style'', JObj [(''type'', JStr ''Unicode''), (''label'', JStr ''Style'')])])],
            JStr ''recipe'')
           \<in> set (entries (JObj [(''recipe'', JObj [(''fields'',
               JObj [(''style'', JObj [(''type'', JStr ''Unicode''), (''label'', JStr ''Style'')])])])]))"
    by code_simp
  have "\<forall>v2Type v3Type steps d k e.
          (v2Type, v3Type) \<in> set stepNamesMap \<and> getProp demoApp v2Type = Inr steps
          \<and> (d, k) \<in> set (entries steps)
          \<and> readFile (demoEnv (tl demoTemplates))
                (pathJoin (TEMPLATE_DIR (demoEnv (tl demoTemplates))) (''/'' @ v3Type @ ''.template.js'')) = Inl e
          \<longrightarrow> (\<exists>e'. (Rejected (IOError ''ENOENT'') :: unit list promise) = Rejected e')"
    using convertApp_all_or_reject [OF b] by (elim exE conjE)
  from this [rule_format, OF conjI [OF s conjI [OF g conjI [OF e m]]]]
  obtain e' where "(Rejected (IOError ''ENOENT'') :: unit list promise) = Rejected e'" ..
  with demo_rejected
  have 3: "\<exists>e. fst (convertApp (demoEnv (tl demoTemplates)) demoApp ''out'' demoWorld) = Inr (Rejected e)"
    by (intro exI [of _ e']) (simp only:)
  have 2: "readFile (demoEnv (tl demoTemplates)) ''/tpl/trigger.template.js'' = Inl (IOError ''ENOENT'')"
    using m by (simp add: demo_template_paths demoEnv_def)
  from demo_resolved 2 3 show ?thesis
    by (intro conjI)
qed

theorem convertApp_five_files_witness:
  "\<exists>c1 c2 c3 c4 c5.
     files (snd (convertApp (demoEnv demoTemplates) demoApp ''out'' demoWorld)) =
       Map.empty(''out/triggers/recipe.js'' \<mapsto> c1, ''out/searches/find.js'' \<mapsto> c2,
         ''out/writes/make.js'' \<mapsto> c3, ''out/index.js'' \<mapsto> c4, ''out/package.json'' \<mapsto> c5)
     \<and> sublist ''      {\<newline>        key: 'style',\<newline>        label: 'Style',\<newline>        helpText: '(help text must be at least 10 characters)',\<newline>        type: 'string',\<newline>        required: false\<newline>      }'' c1"
proof -
  let ?aps = "[(''general'', JObj [(''title'', JStr ''demo''), (''description'', JStr ''A demo'')]),
           (''triggers'', JObj [(''recipe'', JObj [(''fields'',
              JObj [(''style'', JObj [(''type'', JStr ''Unicode''), (''label'', JStr ''Style'')])])])]),
           (''searches'', JObj [(''find'', JObj [(''fields'', JObj [])])]),
           (''actions'', JObj [(''make'', JObj [(''fields'',
              JObj [(''count'', JObj [(''type'', JStr ''integer''), (''required'', JBool True)])])])])]"
  let ?d1 = "JObj [(''fields'',
              JObj [(''style'', JObj [(''type'', JStr ''Unicode''), (''label'', JStr ''Style'')])])]"
  let ?d2 = "JObj [(''fields'', JObj [])]"
  let ?d3 = "JObj [(''fields'',
              JObj [(''count'', JObj [(''type'', JStr ''integer''), (''required'', JBool True)])])]"
  let ?frag = "''      {\<newline>        key: 'style',\<newline>        label: 'Style',\<newline>        helpText: '(help text must be at least 10 characters)',\<newline>        type: 'string',\<newline>        required: false\<newline>      }''"
  have a: "convertApp (demoEnv demoTemplates) (JObj ?aps) ''out'' demoWorld =
             (Inr (Resolved [(), (), (), (), ()]),
              snd (convertApp (demoEnv demoTemplates) demoApp ''out'' demoWorld))"
    using demo_resolved unfolding demoApp_def by (rule fst_eqD)
  have t: "own ?aps ''triggers'' = JObj [(''recipe'', ?d1)]" "\<not> isArrayLike (JObj [(''recipe'', ?d1)])"
    and s: "own ?aps ''searches'' = JObj [(''find'', ?d2)]" "\<not> isArrayLike (JObj [(''find'', ?d2)])"
    and w: "own ?aps ''actions'' = JObj [(''make'', ?d3)]" "\<not> isArrayLike (JObj [(''make'', ?d3)])"
    by (simp_all add: own_def)
  have f: "renderField (JObj [(''type'', JStr ''Unicode''), (''label'', JStr ''Style'')]) (JStr ''style'')
             = Inr ?frag"
    by code_simp
  have g: "getProp ?d1 ''fields'' =
             Inr (JObj [(''style'', JObj [(''type'', JStr ''Unicode''), (''label'', JStr ''Style'')])])"
    by (simp add: own_def)
  have e: "(JObj [(''type'', JStr ''Unicode''), (''label'', JStr ''Style'')], JStr ''style'')
             \<in> set (entries (JObj [(''style'', JObj [(''type'', JStr ''Unicode''), (''label'', JStr ''Style'')])]))"
    by code_simp
  have n: "CHR ''/'' \<notin> set (snakeCase (demoEnv demoTemplates) (JStr ''recipe''))"
    "CHR ''/'' \<notin> set (snakeCase (demoEnv demoTemplates) (JStr ''find''))"
    "CHR ''/'' \<notin> set (snakeCase (demoEnv demoTemplates) (JStr ''make''))"
    by (simp_all add: demoEnv_def)
  obtain c1 c2 c3 c4 c5 where
    "files (snd (convertApp (demoEnv demoTemplates) demoApp ''out'' demoWorld)) =
       (files demoWorld)
        (pathJoin ''out'' (''triggers/'' @ snakeCase (demoEnv demoTemplates) (JStr ''recipe'') @ ''.js'') \<mapsto> c1,
         pathJoin ''out'' (''searches/'' @ snakeCase (demoEnv demoTemplates) (JStr ''find'') @ ''.js'') \<mapsto> c2,
         pathJoin ''out'' (''writes/'' @ snakeCase (demoEnv demoTemplates) (JStr ''make'') @ ''.js'') \<mapsto> c3,
         pathJoin ''out'' ''index.js'' \<mapsto> c4,
         pathJoin ''out'' ''package.json'' \<mapsto> c5)"
    and "\<forall>fs d k frag. getProp ?d1 ''fields'' = Inr fs \<and> (d, k) \<in> set (entries fs)
             \<and> renderField d k = Inr frag \<longrightarrow> sublist frag c1"
    using convertApp_five_files [OF t s w demo_usesFields demo_usesFields demo_usesFields a n]
    by auto
  then have "files (snd (convertApp (demoEnv demoTemplates) demoApp ''out'' demoWorld)) =
       Map.empty(''out/triggers/recipe.js'' \<mapsto> c1, ''out/searches/find.js'' \<mapsto> c2,
         ''out/writes/make.js'' \<mapsto> c3, ''out/index.js'' \<mapsto> c4, ''out/package.json'' \<mapsto> c5)"
    and "sublist ?frag c1"
    using g e f by (simp_all add: demo_file_paths demoEnv_def demoWorld_def)
  then show ?thesis by blast
qed

end
